theory Spec2Isabelle
  imports Complex_Main "HOL-Library.Sublist"
begin

section \<open>String primitives of the host language\<close>

text \<open>
  Strings are byte strings (\<^typ>\<open>string\<close>); the case mapping and the white-space class
  are the ASCII ones. \<open>toLowerCase\<close> maps \<open>A\<close>..\<open>Z\<close> to \<open>a\<close>..\<open>z\<close>, \<open>trim\<close> strips
  tab, line feed, vertical tab, form feed, carriage return and space from both ends,
  \<open>includesStr\<close> is the substring test (the method \<open>includes\<close> of strings) and
  \<open>startsWith\<close> the prefix test.
\<close>

definition toLowerChar :: "char \<Rightarrow> char" where
  "toLowerChar c =
     (let n = (of_char c :: nat) in if 65 \<le> n \<and> n \<le> 90 then char_of (n + 32) else c)"

definition toLowerCase :: "string \<Rightarrow> string" where
  "toLowerCase s = map toLowerChar s"

definition isWhiteSpace :: "char \<Rightarrow> bool" where
  "isWhiteSpace c = (c \<in> set [CHR 0x09, CHR 0x0A, CHR 0x0B, CHR 0x0C, CHR 0x0D, CHR '' ''])"

definition trim :: "string \<Rightarrow> string" where
  "trim s = rev (dropWhile isWhiteSpace (rev (dropWhile isWhiteSpace s)))"

definition includesStr :: "string \<Rightarrow> string \<Rightarrow> bool" where
  "includesStr s sub = sublist sub s"

definition startsWith :: "string \<Rightarrow> string \<Rightarrow> bool" where
  "startsWith s p = prefix p s"

fun join :: "string \<Rightarrow> string list \<Rightarrow> string" where
  "join sep [] = []"
| "join sep [x] = x"
| "join sep (x # y # ys) = x @ sep @ join sep (y # ys)"

text \<open>Truthiness of an optional string: defined and not empty.\<close>

fun truthy :: "string option \<Rightarrow> bool" where
  "truthy None = False"
| "truthy (Some s) = (s \<noteq> [])"

section \<open>Abstract-answer expander (promptAssembler.ts)\<close>

definition ABSTRACT_ANSWERS :: "string list" where
  "ABSTRACT_ANSWERS =
     [''subtle'', ''moderate'', ''pronounced'', ''strong'', ''focused'', ''natural'',
      ''intense'', ''slight'', ''minimal'', ''extreme'', ''soft'', ''hard'']"

definition BREAST_SHAPE_KEYWORDS :: "string list" where
  "BREAST_SHAPE_KEYWORDS =
     [''round'', ''teardrop'', ''full'', ''shallow'', ''athletic'',
      ''wide-set'', ''close-set'', ''asymmetrical'', ''augmented'', ''natural'']"

definition isBreastContext :: "string \<Rightarrow> bool" where
  "isBreastContext q =
     (includesStr q ''breast'' \<or> includesStr q ''bust'' \<or> includesStr q ''chest anatomy'' \<or>
      includesStr q ''upper torso'' \<or> includesStr q ''torso shape'')"

text \<open>The lookup table of the anatomical branch; \<open>a\<close> is the lower-cased, trimmed answer.\<close>

definition breastPhrase :: "string \<Rightarrow> string \<Rightarrow> string" where
  "breastPhrase answer a =
    (if a = ''subtle'' then ''subtle breast definition with gentle anatomical silhouette''
     else if a = ''moderate'' then
       ''moderate breast definition with balanced curvature and natural proportions''
     else if a = ''pronounced'' then
       ''pronounced breast curvature with clearly defined upper-torso silhouette''
     else if a = ''soft'' then ''soft breast contours with smooth anatomical transitions''
     else if a = ''hard'' then ''firm breast contours with sculpted anatomical form''
     else if a = ''minimal'' then ''minimal breast projection with understated chest anatomy''
     else if a = ''extreme'' then
       ''highly emphasized breast curvature with dramatic anatomical silhouette''
     else if a = ''strong'' then
       ''strongly defined breast shape with enhanced anatomical contour''
     else if a = ''intense'' then ''intensely emphasized upper-torso anatomy and curvature''
     else if a = ''round'' then ''round breast shape with balanced fullness''
     else if a = ''teardrop'' then ''teardrop breast shape with lower-fullness profile''
     else if a = ''full'' then ''full, evenly distributed breast volume''
     else if a = ''shallow'' then ''shallow breast projection with gentle slope''
     else if a = ''athletic'' then ''athletic chest anatomy with minimal projection''
     else if a = ''wide-set'' \<or> a = ''wide set'' \<or> a = ''east-west'' \<or> a = ''east_west'' then
       ''wide-set breast placement with visible sternum spacing''
     else if a = ''close-set'' \<or> a = ''close set'' \<or> a = ''side-set'' \<or> a = ''side_set'' then
       ''close-set breast placement with narrow anatomical spacing''
     else if a = ''asymmetric'' \<or> a = ''asymmetrical'' then
       ''naturally asymmetrical breast proportions''
     else if a = ''augmented'' then ''augmented breast shape with structured curvature''
     else if a = ''natural'' then ''natural breast shape with organic anatomical silhouette''
     else if a = ''bell'' \<or> a = ''bell shape'' then
       ''bell-shaped breast profile with wider base and tapered top''
     else if a = ''slender'' then ''slender breast profile with elongated anatomical form''
     else if a = ''relaxed'' then ''relaxed breast tissue with natural downward contour''
     else if a = ''conical'' then ''conical breast shape with pointed anatomical structure''
     else answer)"

text \<open>
  The otherworldly block returns only for four adjectives; every other adjective falls
  through to the later topic tests, hence the \<open>option\<close>.
\<close>

definition otherworldPhrase :: "string \<Rightarrow> string option" where
  "otherworldPhrase a =
    (if a = ''subtle'' then Some ''subtle otherworldly presence''
     else if a = ''moderate'' then Some ''moderate degree of otherworldly traits''
     else if a = ''pronounced'' then Some ''strongly pronounced supernatural features''
     else if a = ''extreme'' then Some ''extremely vivid otherworldly appearance''
     else None)"

definition topicPhrase :: "string \<Rightarrow> string \<Rightarrow> string" where
  "topicPhrase a q =
    (if includesStr q ''intensity'' \<or> includesStr q ''strength'' then a @ '' intensity level''
     else if includesStr q ''mood'' \<or> includesStr q ''emotion'' \<or> includesStr q ''personality'' then
       a @ '' emotional expression''
     else if includesStr q ''style'' \<or> includesStr q ''art style'' then a @ '' stylistic effect''
     else if includesStr q ''camera'' \<or> includesStr q ''perspective'' \<or> includesStr q ''angle'' then
       a @ '' camera perspective adjustment''
     else if includesStr q ''light'' \<or> includesStr q ''illumination'' then a @ '' lighting effect''
     else if includesStr q ''hair'' then a @ '' hair appearance''
     else if includesStr q ''body'' \<or> includesStr q ''build'' \<or> includesStr q ''shape'' then
       a @ '' physical trait''
     else a @ '' visual effect'')"

text \<open>The part of the expander after the early return.\<close>

definition expandKnown :: "string \<Rightarrow> string \<Rightarrow> string \<Rightarrow> string" where
  "expandKnown answer a q =
    (if isBreastContext q then breastPhrase answer a
     else (case (if includesStr q ''otherworld'' \<or> includesStr q ''supernatural'' \<or>
                    includesStr q ''non-human''
                 then otherworldPhrase a else None) of
             Some p \<Rightarrow> p
           | None \<Rightarrow> topicPhrase a q))"

definition expandAbstractAnswer :: "string \<Rightarrow> string \<Rightarrow> string" where
  "expandAbstractAnswer answer question =
    (let a = trim (toLowerCase answer);
         q = toLowerCase question
     in if isBreastContext q \<and> a \<in> set BREAST_SHAPE_KEYWORDS then expandKnown answer a q
        else if a \<notin> set ABSTRACT_ANSWERS \<and> a \<notin> set BREAST_SHAPE_KEYWORDS then answer
        else expandKnown answer a q)"

section \<open>Template normalizer (promptAssembler.ts)\<close>

text \<open>
  The rule table is a plain object and the normalizer reads it with the tag as the
  property name, without asking whether the property is the table's own. A tag that names
  a member of the prototype of all objects therefore finds that member, and the normalizer
  calls it as a rule, with nothing as its receiver. Such a call may raise, and it may
  return a value that is no primitive string; the loop goes on with that value. So the
  text under rewriting is a value of one of four shapes, and a rule returns an error or
  a value.
\<close>

datatype error = TypeError

datatype jsValue =
    JsString string
  | JsStringObject string
  | JsFalse
  | JsFalseObject

text \<open>The conversion to a string that a template literal applies to a value.\<close>

fun textOf :: "jsValue \<Rightarrow> string" where
  "textOf (JsString s) = s"
| "textOf (JsStringObject s) = s"
| "textOf JsFalse = ''false''"
| "textOf JsFalseObject = ''false''"

text \<open>
  The call \<^verbatim>\<open>t.includes(sub)\<close>: strings and their wrapper objects have the method; on a
  boolean or its wrapper the property is missing and the call raises.
\<close>

fun includesVal :: "jsValue \<Rightarrow> string \<Rightarrow> error + bool" where
  "includesVal (JsString s) sub = Inr (includesStr s sub)"
| "includesVal (JsStringObject s) sub = Inr (includesStr s sub)"
| "includesVal JsFalse sub = Inl TypeError"
| "includesVal JsFalseObject sub = Inl TypeError"

definition rule_hair :: "jsValue \<Rightarrow> error + jsValue" where
  "rule_hair t =
    (case includesVal t ''wave'' of
       Inl e \<Rightarrow> Inl e
     | Inr wave \<Rightarrow>
        if wave then Inr (JsString ''soft loose waves in the hair'')
        else
          (case includesVal t ''curl'' of
             Inl e \<Rightarrow> Inl e
           | Inr curl \<Rightarrow>
              if curl then Inr (JsString ''defined hair curls'')
              else
                (case includesVal t ''volume'' of
                   Inl e \<Rightarrow> Inl e
                 | Inr volume \<Rightarrow>
                    if volume then Inr (JsString ''voluminous hairstyle'')
                    else
                      (case includesVal t ''texture'' of
                         Inl e \<Rightarrow> Inl e
                       | Inr texture \<Rightarrow>
                          if texture then Inr (JsString ''hair texture detailing'')
                          else Inr (JsString (''hairstyle with '' @ textOf t))))))"

text \<open>
  The shape that eleven of the rules share: when the text does not include the keyword,
  return the phrase followed by the text, else return the value as it came.
\<close>

definition prefixUnless :: "string \<Rightarrow> string \<Rightarrow> jsValue \<Rightarrow> error + jsValue" where
  "prefixUnless keyword phrase t =
    (case includesVal t keyword of
       Inl e \<Rightarrow> Inl e
     | Inr found \<Rightarrow> if \<not> found then Inr (JsString (phrase @ textOf t)) else Inr t)"

definition rule_eyes :: "jsValue \<Rightarrow> error + jsValue" where
  "rule_eyes t = prefixUnless ''eye'' ''eye '' t"

definition rule_face :: "jsValue \<Rightarrow> error + jsValue" where
  "rule_face t = prefixUnless ''face'' ''facial '' t"

definition rule_environment :: "jsValue \<Rightarrow> error + jsValue" where
  "rule_environment t =
    (case includesVal t ''depth'' of
       Inl e \<Rightarrow> Inl e
     | Inr depth \<Rightarrow>
        if depth then Inr (JsString ''environment depth layering'')
        else prefixUnless ''environment'' ''environment '' t)"

definition rule_lighting :: "jsValue \<Rightarrow> error + jsValue" where
  "rule_lighting t = prefixUnless ''light'' ''lighting '' t"

definition rule_camera :: "jsValue \<Rightarrow> error + jsValue" where
  "rule_camera t = prefixUnless ''camera'' ''camera '' t"

definition rule_color :: "jsValue \<Rightarrow> error + jsValue" where
  "rule_color t = prefixUnless ''color'' ''color style '' t"

definition rule_materials :: "jsValue \<Rightarrow> error + jsValue" where
  "rule_materials t = Inr (JsString (textOf t @ '' material texture''))"

definition rule_clothing :: "jsValue \<Rightarrow> error + jsValue" where
  "rule_clothing t = prefixUnless ''clothing'' ''clothing '' t"

definition rule_fabric :: "jsValue \<Rightarrow> error + jsValue" where
  "rule_fabric t = prefixUnless ''fabric'' ''fabric '' t"

definition rule_armor :: "jsValue \<Rightarrow> error + jsValue" where
  "rule_armor t = prefixUnless ''armor'' ''armor '' t"

definition rule_magic :: "jsValue \<Rightarrow> error + jsValue" where
  "rule_magic t = prefixUnless ''magic'' ''magical '' t"

definition rule_expression :: "jsValue \<Rightarrow> error + jsValue" where
  "rule_expression t = prefixUnless ''expression'' ''expression '' t"

definition rule_pose :: "jsValue \<Rightarrow> error + jsValue" where
  "rule_pose t = prefixUnless ''pose'' ''pose '' t"

text \<open>
  What the table yields for a tag that is not one of its own fourteen keys but names a
  member that every object inherits, as a function of the argument of the call
  \<^verbatim>\<open>rule(t)\<close>. \<open>toString\<close> describes its missing receiver; \<open>constructor\<close> wraps a
  primitive into its object and returns an object as it is; \<open>isPrototypeOf\<close> answers
  false for a primitive before it looks at its receiver; the other members need their
  receiver and raise; \<open>__proto__\<close> yields the prototype object, which is not a function,
  so the call raises.
\<close>

fun toObject :: "jsValue \<Rightarrow> jsValue" where
  "toObject (JsString s) = JsStringObject s"
| "toObject (JsStringObject s) = JsStringObject s"
| "toObject JsFalse = JsFalseObject"
| "toObject JsFalseObject = JsFalseObject"

fun isObject :: "jsValue \<Rightarrow> bool" where
  "isObject (JsString s) = False"
| "isObject (JsStringObject s) = True"
| "isObject JsFalse = False"
| "isObject JsFalseObject = True"

definition raisingMembers :: "string list" where
  "raisingMembers =
     [''__proto__'', ''valueOf'', ''hasOwnProperty'', ''propertyIsEnumerable'',
      ''toLocaleString'', ''__defineGetter__'', ''__defineSetter__'', ''__lookupGetter__'',
      ''__lookupSetter__'']"

definition inheritedMember :: "string \<Rightarrow> (jsValue \<Rightarrow> error + jsValue) option" where
  "inheritedMember tag =
    (if tag = ''toString'' then Some (\<lambda>t. Inr (JsString ''[object Undefined]''))
     else if tag = ''constructor'' then Some (\<lambda>t. Inr (toObject t))
     else if tag = ''isPrototypeOf'' then
       Some (\<lambda>t. if isObject t then Inl TypeError else Inr JsFalse)
     else if tag \<in> set raisingMembers then Some (\<lambda>t. Inl TypeError)
     else None)"

text \<open>The lookup \<^verbatim>\<open>NORMALIZATION_RULES[tag]\<close>: the own keys first, then the inherited
  members; \<open>None\<close> when the lookup yields nothing.\<close>

definition NORMALIZATION_RULES :: "string \<Rightarrow> (jsValue \<Rightarrow> error + jsValue) option" where
  "NORMALIZATION_RULES tag =
    (if tag = ''hair'' then Some rule_hair
     else if tag = ''eyes'' then Some rule_eyes
     else if tag = ''face'' then Some rule_face
     else if tag = ''environment'' then Some rule_environment
     else if tag = ''lighting'' then Some rule_lighting
     else if tag = ''camera'' then Some rule_camera
     else if tag = ''color'' then Some rule_color
     else if tag = ''materials'' then Some rule_materials
     else if tag = ''clothing'' then Some rule_clothing
     else if tag = ''fabric'' then Some rule_fabric
     else if tag = ''armor'' then Some rule_armor
     else if tag = ''magic'' then Some rule_magic
     else if tag = ''expression'' then Some rule_expression
     else if tag = ''pose'' then Some rule_pose
     else inheritedMember tag)"

text \<open>The loop over the tags; it stops at the first rule that raises.\<close>

fun applyRules :: "jsValue \<Rightarrow> string list \<Rightarrow> error + jsValue" where
  "applyRules t [] = Inr t"
| "applyRules t (tag # tags) =
    (case NORMALIZATION_RULES tag of
       None \<Rightarrow> applyRules t tags
     | Some rule \<Rightarrow>
        (case rule t of
           Inl e \<Rightarrow> Inl e
         | Inr t' \<Rightarrow> applyRules t' tags))"

definition normalizeTemplate :: "string \<Rightarrow> string list \<Rightarrow> error + jsValue" where
  "normalizeTemplate template tags = applyRules (JsString (trim (toLowerCase template))) tags"

section \<open>Subject extraction (the two patterns of assemblePrompt)\<close>

text \<open>
  The patterns are \<^verbatim>\<open>/what (?:are|is) (?:the )?(.+?) (?:like|like\?)$/\<close> and
  \<^verbatim>\<open>/what (?:are|is) (?:the )?(.+?)\?$/\<close>. Both are searched from the leftmost start
  position; at one start position the matcher tries \<open>are\<close> before \<open>is\<close>, the optional
  \<open>the \<close> before its absence, and the lazy group from its shortest extent upwards. The
  dot does not match a line terminator, and \<open>$\<close> is the end of the input, so what follows
  the group must be exactly one of the given tails. The result is capture group 1.
\<close>

definition isLineTerminator :: "char \<Rightarrow> bool" where
  "isLineTerminator c = (c = CHR 0x0A \<or> c = CHR 0x0D)"

fun lazyGroup :: "string list \<Rightarrow> string \<Rightarrow> string \<Rightarrow> string option" where
  "lazyGroup tails acc [] = None"
| "lazyGroup tails acc (c # cs) =
     (if isLineTerminator c then None
      else if cs \<in> set tails then Some (acc @ [c])
      else lazyGroup tails (acc @ [c]) cs)"

definition afterVerb :: "string list \<Rightarrow> string \<Rightarrow> string option" where
  "afterVerb tails r =
     (case (if prefix ''the '' r then lazyGroup tails [] (drop 4 r) else None) of
        Some m \<Rightarrow> Some m
      | None \<Rightarrow> lazyGroup tails [] r)"

definition matchAt :: "string list \<Rightarrow> string \<Rightarrow> string option" where
  "matchAt tails s =
     (if prefix ''what '' s then
        (case (if prefix ''are '' (drop 5 s) then afterVerb tails (drop 9 s) else None) of
           Some m \<Rightarrow> Some m
         | None \<Rightarrow> (if prefix ''is '' (drop 5 s) then afterVerb tails (drop 8 s) else None))
      else None)"

fun regexSearch :: "string list \<Rightarrow> string \<Rightarrow> string option" where
  "regexSearch tails [] = matchAt tails []"
| "regexSearch tails (c # cs) =
     (case matchAt tails (c # cs) of
        Some m \<Rightarrow> Some m
      | None \<Rightarrow> regexSearch tails cs)"

definition matchSubject :: "string \<Rightarrow> string option" where
  "matchSubject question =
     (case regexSearch ['' like'', '' like?''] question of
        Some m \<Rightarrow> Some m
      | None \<Rightarrow> regexSearch [''?''] question)"

section \<open>Prompt assembler (promptAssembler.ts)\<close>

text \<open>
  Record fields carry a prefix, since \<open>id\<close>, \<open>label\<close> and the like occur in several
  interfaces. The collaborator \<open>sanitizeTemplate\<close> (module templateSanitizer), applied to
  a template and its tags, is a parameter of the assembler.
\<close>

subsection \<open>Numbers and their rendering with two fraction digits\<close>

text \<open>
  A number is not-a-number, one of the two infinities, or finite; a finite number is
  given by its mathematical value. The program stores weight values and renders them; it
  computes nothing with them.

  \<^verbatim>\<open>value.toFixed(2)\<close> is defined on the mathematical value: a number that is not finite
  is rendered by name; otherwise the sign is split off, and a magnitude below \<open>10^21\<close> is
  rendered as the digits of the nearest integer to a hundred times the magnitude (the
  larger one of two nearest), padded with zeros to three digits, with a point before the
  last two. A magnitude of \<open>10^21\<close> or more is rendered as the general conversion of a
  number to a string does it, which is the parameter \<open>numberToString\<close>.
\<close>

datatype number = Finite real | NaN | PosInfinity | NegInfinity

definition digitChar :: "nat \<Rightarrow> char" where
  "digitChar d = ''0123456789'' ! d"

function natDigits :: "nat \<Rightarrow> string" where
  "natDigits n = (if n < 10 then [digitChar n] else natDigits (n div 10) @ [digitChar (n mod 10)])"
  by pat_completeness auto
termination
  by (relation "measure id") auto

declare natDigits.simps [simp del]

definition toFixed2 :: "(real \<Rightarrow> string) \<Rightarrow> number \<Rightarrow> string" where
  "toFixed2 numberToString v =
    (case v of
       NaN \<Rightarrow> ''NaN''
     | PosInfinity \<Rightarrow> ''Infinity''
     | NegInfinity \<Rightarrow> ''-Infinity''
     | Finite x0 \<Rightarrow>
        (let s = (if x0 < 0 then ''-'' else []);
             x = \<bar>x0\<bar>
         in if 10 ^ 21 \<le> x then s @ numberToString x
            else
              (let n = nat \<lfloor>x * 100 + 1 / 2\<rfloor>;
                   m = natDigits n;
                   m' = (if length m \<le> 2 then replicate (3 - length m) (CHR ''0'') @ m else m);
                   k = length m'
               in s @ take (k - 2) m' @ ''.'' @ drop (k - 2) m')))"

record SelectedAnswer =
  sa_id :: string
  sa_nodeId :: string
  sa_answerId :: string
  sa_label :: string
  sa_questionText :: "string option"

record SelectedRefinement =
  sr_id :: string
  sr_refinementId :: string
  sr_answerId :: string
  sr_label :: string
  sr_questionText :: "string option"

record WeightValue =
  wv_id :: string
  wv_attrId :: string
  wv_value :: number
  wv_template :: string
  wv_tags :: "string list option"
  wv_associatedAnswerId :: "string option"
  wv_answerLabel :: "string option"

datatype ElementType = prompt_type | negative_type

record CustomElement =
  ce_text :: string
  ce_enabled :: bool
  ce_type :: ElementType

record AssembledPrompt =
  prompt :: string
  negativePrompt :: string

text \<open>The sanitizer gets whatever the normalizer returned as the template.\<close>

type_synonym sanitizer = "jsValue \<Rightarrow> string list \<Rightarrow> string"

definition tagsOrEmpty :: "string list option \<Rightarrow> string list" where
  "tagsOrEmpty ts = (case ts of None \<Rightarrow> [] | Some l \<Rightarrow> l)"

text \<open>The label pushed for one committed answer.\<close>

definition answerPart :: "SelectedAnswer \<Rightarrow> string" where
  "answerPart a =
    (let label = (case sa_questionText a of
                    Some q \<Rightarrow> if q \<noteq> [] then expandAbstractAnswer (sa_label a) q
                              else sa_label a
                  | None \<Rightarrow> sa_label a)
     in if sa_nodeId a = ''character-build'' then toLowerCase label @ '' body type''
        else (case sa_questionText a of
                Some q \<Rightarrow>
                  if q \<noteq> [] \<and> trim (toLowerCase (sa_label a)) \<notin> set ABSTRACT_ANSWERS then
                    (case matchSubject (toLowerCase q) of
                       Some m \<Rightarrow> if m \<noteq> [] then toLowerCase label @ '' '' @ trim m else label
                     | None \<Rightarrow> label)
                  else label
              | None \<Rightarrow> label))"

definition refinementPart :: "SelectedRefinement \<Rightarrow> string" where
  "refinementPart r =
    (case sr_questionText r of
       Some q \<Rightarrow> if q \<noteq> [] then expandAbstractAnswer (sr_label r) q else sr_label r
     | None \<Rightarrow> sr_label r)"

definition isRootAnswer :: "SelectedAnswer list \<Rightarrow> WeightValue \<Rightarrow> bool" where
  "isRootAnswer answers w =
     list_ex (\<lambda>a. Some (sa_id a) = wv_associatedAnswerId w \<and> sa_nodeId a = ''root'') answers"

definition fragment :: "(real \<Rightarrow> string) \<Rightarrow> string \<Rightarrow> number \<Rightarrow> string" where
  "fragment numberToString text v = ''('' @ text @ '':'' @ toFixed2 numberToString v @ '')''"

text \<open>The template of a weight that is not an intensity weight, with the answer label
  prepended unless the template mentions it already.\<close>

definition contextualTemplate :: "WeightValue \<Rightarrow> string" where
  "contextualTemplate w =
    (case wv_answerLabel w of
       Some l \<Rightarrow>
         if l \<noteq> [] \<and> \<not> includesStr (toLowerCase (wv_template w)) (toLowerCase l)
         then toLowerCase l @ '' '' @ wv_template w
         else wv_template w
     | None \<Rightarrow> wv_template w)"

text \<open>
  One round of the loop over the weights; the state is the list of parts pushed so far
  and the set \<open>seen\<close>. The round raises when the normalizer does.
\<close>

definition weightStep ::
  "sanitizer \<Rightarrow> (real \<Rightarrow> string) \<Rightarrow> SelectedAnswer list \<Rightarrow>
   string list \<times> string set \<Rightarrow> WeightValue \<Rightarrow> error + string list \<times> string set" where
  "weightStep sanitizeTemplate numberToString answers st w =
    (let parts = fst st; seen = snd st in
     if wv_attrId w = ''intensity'' \<and> truthy (wv_answerLabel w) then
       (if isRootAnswer answers w then Inr (parts, seen)
        else
          (let safeLabel = sanitizeTemplate
                 (JsString (toLowerCase (case wv_answerLabel w of Some l \<Rightarrow> l | None \<Rightarrow> [])))
                 (tagsOrEmpty (wv_tags w))
           in if safeLabel \<in> seen then Inr (parts, seen)
              else Inr (parts @ [fragment numberToString safeLabel (wv_value w)],
                        insert safeLabel seen)))
     else if wv_attrId w = ''intensity'' \<and> \<not> truthy (wv_answerLabel w) then Inr (parts, seen)
     else
       (case normalizeTemplate (contextualTemplate w) (tagsOrEmpty (wv_tags w)) of
          Inl e \<Rightarrow> Inl e
        | Inr normalizedTemplate \<Rightarrow>
           (let safeTemplate = sanitizeTemplate normalizedTemplate (tagsOrEmpty (wv_tags w))
            in if safeTemplate \<in> seen then Inr (parts, seen)
               else Inr (parts @ [fragment numberToString safeTemplate (wv_value w)],
                         insert safeTemplate seen))))"

fun weightLoop ::
  "sanitizer \<Rightarrow> (real \<Rightarrow> string) \<Rightarrow> SelectedAnswer list \<Rightarrow>
   string list \<times> string set \<Rightarrow> WeightValue list \<Rightarrow> error + string list \<times> string set" where
  "weightLoop sanitizeTemplate numberToString answers st [] = Inr st"
| "weightLoop sanitizeTemplate numberToString answers st (w # ws) =
    (case weightStep sanitizeTemplate numberToString answers st w of
       Inl e \<Rightarrow> Inl e
     | Inr st' \<Rightarrow> weightLoop sanitizeTemplate numberToString answers st' ws)"

definition customPromptElements :: "CustomElement list \<Rightarrow> string list" where
  "customPromptElements ces =
     map ce_text (filter (\<lambda>e. ce_enabled e \<and> ce_type e = prompt_type) ces)"

definition customNegativeElements :: "CustomElement list \<Rightarrow> string list" where
  "customNegativeElements ces =
     map ce_text (filter (\<lambda>e. ce_enabled e \<and> ce_type e \<noteq> prompt_type) ces)"

definition negativeParts :: "string list" where
  "negativeParts =
     [''deformed'', ''distorted'', ''extra limbs'', ''low detail'', ''low quality'',
      ''bad anatomy'']"

text \<open>The parts list just before it is joined.\<close>

definition promptParts ::
  "sanitizer \<Rightarrow> (real \<Rightarrow> string) \<Rightarrow> SelectedAnswer list \<Rightarrow> SelectedRefinement list \<Rightarrow>
   WeightValue list \<Rightarrow> CustomElement list \<Rightarrow> error + string list" where
  "promptParts sanitizeTemplate numberToString answers refinements weights customElements =
    (case weightLoop sanitizeTemplate numberToString answers
            (map answerPart answers @ map refinementPart refinements, {}) weights of
       Inl e \<Rightarrow> Inl e
     | Inr st \<Rightarrow> Inr (fst st @ customPromptElements customElements))"

definition assemblePrompt ::
  "sanitizer \<Rightarrow> (real \<Rightarrow> string) \<Rightarrow> SelectedAnswer list \<Rightarrow> SelectedRefinement list \<Rightarrow>
   WeightValue list \<Rightarrow> CustomElement list \<Rightarrow> error + AssembledPrompt" where
  "assemblePrompt sanitizeTemplate numberToString answers refinements weights customElements =
    (case promptParts sanitizeTemplate numberToString answers refinements weights
            customElements of
       Inl e \<Rightarrow> Inl e
     | Inr parts \<Rightarrow>
         Inr \<lparr> prompt = join '', '' parts,
               negativePrompt =
                 join '', '' (negativeParts @ customNegativeElements customElements) \<rparr>)"

section \<open>Interview engine (useInterviewEngine.ts)\<close>

subsection \<open>Node graph\<close>

text \<open>
  The node types as the engine reads them. The node map holds interview nodes and
  refinement nodes alike and the engine reads every entry as an interview node, so a
  refinement node stored in the map is an entry without refinements of its own.
\<close>

record AnswerOption =
  ao_id :: string
  ao_label :: string
  ao_next :: "string option"

record WeightAttr =
  wa_id :: string
  wa_label :: string
  wa_template :: string
  wa_min :: number
  wa_max :: number
  wa_step :: number
  wa_default :: number
  wa_tags :: "string list option"

record RefinementNode =
  rn_id :: string
  rn_question :: string
  rn_answers :: "AnswerOption list option"
  rn_weights :: "WeightAttr list option"

record InterviewNode =
  in_id :: string
  in_question :: string
  in_answers :: "AnswerOption list option"
  in_weights :: "WeightAttr list option"
  in_refinements :: "RefinementNode list option"

type_synonym nodeMap = "string \<rightharpoonup> InterviewNode"

subsection \<open>Insertion-ordered maps\<close>

text \<open>
  The weight collection is iterated in insertion order, so it is a list of entries:
  setting an existing key keeps its position, setting a new key appends.
\<close>

fun mapSet :: "'k \<Rightarrow> 'v \<Rightarrow> ('k \<times> 'v) list \<Rightarrow> ('k \<times> 'v) list" where
  "mapSet k v [] = [(k, v)]"
| "mapSet k v (e # es) = (if fst e = k then (k, v) # es else e # mapSet k v es)"

definition mapDelete :: "'k \<Rightarrow> ('k \<times> 'v) list \<Rightarrow> ('k \<times> 'v) list" where
  "mapDelete k es = filter (\<lambda>e. fst e \<noteq> k) es"

subsection \<open>State\<close>

record EngineState =
  currentNodeId :: string
  history :: "string list"
  tempAnswers :: "string \<rightharpoonup> SelectedAnswer"
  tempRefinements :: "string \<rightharpoonup> SelectedRefinement"
  committedAnswers :: "SelectedAnswer list"
  committedRefinements :: "SelectedRefinement list"
  weightValues :: "(string \<times> WeightValue) list"
  tempIntensities :: "string \<rightharpoonup> number"
  touchedWeights :: "string set"
  enabledSliders :: "string \<rightharpoonup> bool"
  customElements :: "CustomElement list"

definition initialState :: EngineState where
  "initialState =
     \<lparr> currentNodeId = ''root'', history = [''root''],
       tempAnswers = Map.empty, tempRefinements = Map.empty,
       committedAnswers = [], committedRefinements = [], weightValues = [],
       tempIntensities = Map.empty, touchedWeights = {}, enabledSliders = Map.empty,
       customElements = [] \<rparr>"

definition currentNode :: "nodeMap \<Rightarrow> EngineState \<Rightarrow> InterviewNode option" where
  "currentNode nm s = nm (currentNodeId s)"

subsection \<open>Temporary selections\<close>

definition selectTempAnswer :: "nodeMap \<Rightarrow> string \<Rightarrow> EngineState \<Rightarrow> EngineState" where
  "selectTempAnswer nm answerId s =
    (case currentNode nm s of
       None \<Rightarrow> s
     | Some node \<Rightarrow>
        (case in_answers node of
           None \<Rightarrow> s
         | Some answers \<Rightarrow>
            (case find (\<lambda>a. ao_id a = answerId) answers of
               None \<Rightarrow> s
             | Some answer \<Rightarrow>
                 s\<lparr> tempAnswers := (tempAnswers s)(currentNodeId s \<mapsto>
                      \<lparr> sa_id = ''temp-'' @ currentNodeId s @ ''-'' @ answerId,
                        sa_nodeId = currentNodeId s,
                        sa_answerId = ao_id answer,
                        sa_label = ao_label answer,
                        sa_questionText = Some (in_question node) \<rparr>) \<rparr>)))"

definition selectTempRefinement :: "nodeMap \<Rightarrow> string \<Rightarrow> EngineState \<Rightarrow> EngineState" where
  "selectTempRefinement nm answerId s =
    (case currentNode nm s of
       None \<Rightarrow> s
     | Some node \<Rightarrow>
        (case in_answers node of
           None \<Rightarrow> s
         | Some answers \<Rightarrow>
            (case find (\<lambda>a. ao_id a = answerId) answers of
               None \<Rightarrow> s
             | Some answer \<Rightarrow>
                 s\<lparr> tempRefinements := (tempRefinements s)(currentNodeId s \<mapsto>
                      \<lparr> sr_id = ''temp-'' @ currentNodeId s @ ''-'' @ answerId,
                        sr_refinementId = currentNodeId s,
                        sr_answerId = ao_id answer,
                        sr_label = ao_label answer,
                        sr_questionText = Some (in_question node) \<rparr>),
                    tempIntensities :=
                      (case tempIntensities s (currentNodeId s) of
                         None \<Rightarrow> (tempIntensities s)(currentNodeId s \<mapsto> Finite 1)
                       | Some v \<Rightarrow> tempIntensities s) \<rparr>)))"

text \<open>Deleting the entries of one node from the three temporary maps.\<close>

definition clearTemp :: "string \<Rightarrow> EngineState \<Rightarrow> EngineState" where
  "clearTemp nodeId s =
     s\<lparr> tempAnswers := (tempAnswers s)(nodeId := None),
        tempRefinements := (tempRefinements s)(nodeId := None),
        tempIntensities := (tempIntensities s)(nodeId := None) \<rparr>"

subsection \<open>Commit\<close>

text \<open>
  The identifiers made at commit time contain the clock and a random number; the text
  that follows \<open>sel-\<close> in the identifier of the answer and of the refinement, and the
  text inside the identifier of the \<open>i\<close>-th weight when it is committed standalone, are
  arguments of the operation.
\<close>

definition weightsOrEmpty :: "WeightAttr list option \<Rightarrow> WeightAttr list" where
  "weightsOrEmpty ws = (case ws of None \<Rightarrow> [] | Some l \<Rightarrow> l)"

definition allWeights :: "nodeMap \<Rightarrow> string \<Rightarrow> InterviewNode \<Rightarrow> WeightAttr list" where
  "allWeights nm cur node =
    (let nodeWeights = weightsOrEmpty (in_weights node);
         refinementWeights =
           (case in_refinements node of
              None \<Rightarrow> []
            | Some rs \<Rightarrow> concat (map (\<lambda>r. weightsOrEmpty (rn_weights r)) rs))
           @ (if startsWith cur ''refine-'' then
                (case nm cur of
                   None \<Rightarrow> []
                 | Some refinementNode \<Rightarrow> weightsOrEmpty (in_weights refinementNode))
              else [])
     in nodeWeights @ refinementWeights)"

text \<open>The walk back through the history, from the entry before the last one down to the
  first; the argument is that part of the history, latest entry first.\<close>

fun contextWalk ::
  "SelectedAnswer list \<Rightarrow> SelectedRefinement list \<Rightarrow> string list \<Rightarrow> (string \<times> string) option"
where
  "contextWalk cas crs [] = None"
| "contextWalk cas crs (prevNodeId # rest) =
    (case find (\<lambda>a. sa_nodeId a = prevNodeId) cas of
       Some prevAnswer \<Rightarrow> Some (sa_id prevAnswer, sa_label prevAnswer)
     | None \<Rightarrow>
        (case find (\<lambda>r. sr_refinementId r = prevNodeId) crs of
           Some prevRefinement \<Rightarrow> Some (sr_id prevRefinement, sr_label prevRefinement)
         | None \<Rightarrow> contextWalk cas crs rest))"

definition contextualAnswer :: "EngineState \<Rightarrow> string option \<Rightarrow> (string \<times> string) option" where
  "contextualAnswer s committedAnswerId =
    (if \<not> truthy committedAnswerId \<and> length (history s) > 1
     then contextWalk (committedAnswers s) (committedRefinements s) (rev (butlast (history s)))
     else None)"

definition orElse :: "string option \<Rightarrow> string option \<Rightarrow> string option" where
  "orElse a b = (if truthy a then a else b)"

definition currentWeightOf :: "EngineState \<Rightarrow> string \<Rightarrow> WeightValue option" where
  "currentWeightOf s attrId =
    (case map_of (weightValues s) attrId of
       Some w \<Rightarrow> Some w
     | None \<Rightarrow>
         map_option snd
           (find (\<lambda>e. wv_attrId (snd e) = attrId \<and> \<not> truthy (wv_associatedAnswerId (snd e)))
              (weightValues s)))"

definition commitWeight ::
  "EngineState \<Rightarrow> string option \<Rightarrow> string option \<Rightarrow> (nat \<Rightarrow> string) \<Rightarrow> nat \<Rightarrow> WeightAttr \<Rightarrow>
   (string \<times> WeightValue) list \<Rightarrow> (string \<times> WeightValue) list" where
  "commitWeight s finalAnswerId finalAnswerLabel rnd i weightAttr m =
    (if enabledSliders s (wa_id weightAttr) \<noteq> Some True then m
     else if \<not> (wa_id weightAttr \<in> touchedWeights s \<or> truthy finalAnswerId) then m
     else
       (let currentWeight = currentWeightOf s (wa_id weightAttr);
            weightValue = (case currentWeight of Some w \<Rightarrow> wv_value w
                           | None \<Rightarrow> wa_default weightAttr);
            weightTags = (case currentWeight of Some w \<Rightarrow> wv_tags w
                          | None \<Rightarrow> wa_tags weightAttr)
        in if truthy finalAnswerId \<and> truthy finalAnswerLabel then
             (let weightId = ''weight-'' @ (case finalAnswerId of Some f \<Rightarrow> f | None \<Rightarrow> [])
                               @ ''-'' @ wa_id weightAttr
              in mapSet weightId
                   \<lparr> wv_id = weightId, wv_attrId = wa_id weightAttr, wv_value = weightValue,
                     wv_template = wa_template weightAttr, wv_tags = weightTags,
                     wv_associatedAnswerId = finalAnswerId,
                     wv_answerLabel = finalAnswerLabel \<rparr> m)
           else
             (let standaloneWeightId =
                    ''weight-standalone-'' @ rnd i @ ''-'' @ wa_id weightAttr
              in mapSet standaloneWeightId
                   \<lparr> wv_id = standaloneWeightId, wv_attrId = wa_id weightAttr,
                     wv_value = weightValue, wv_template = wa_template weightAttr,
                     wv_tags = weightTags, wv_associatedAnswerId = None,
                     wv_answerLabel = None \<rparr> m)))"

fun commitWeights ::
  "EngineState \<Rightarrow> string option \<Rightarrow> string option \<Rightarrow> (nat \<Rightarrow> string) \<Rightarrow> nat \<Rightarrow>
   WeightAttr list \<Rightarrow> (string \<times> WeightValue) list \<Rightarrow> (string \<times> WeightValue) list" where
  "commitWeights s fid flabel rnd i [] m = m"
| "commitWeights s fid flabel rnd i (weightAttr # rest) m =
     commitWeights s fid flabel rnd (Suc i) rest (commitWeight s fid flabel rnd i weightAttr m)"

definition commitIntensity ::
  "EngineState \<Rightarrow> string option \<Rightarrow> string option \<Rightarrow> (string \<times> WeightValue) list" where
  "commitIntensity s committedAnswerId answerLabel =
    (if currentNodeId s \<noteq> ''root'' \<and> enabledSliders s ''intensity'' = Some True then
       (let intensity = (case tempIntensities s (currentNodeId s) of Some v \<Rightarrow> v
                         | None \<Rightarrow> Finite 1)
        in (case committedAnswerId of
              Some cid \<Rightarrow>
                if cid \<noteq> [] \<and> truthy answerLabel then
                  (let intensityWeightId = ''weight-'' @ cid @ ''-intensity''
                   in mapSet intensityWeightId
                        \<lparr> wv_id = intensityWeightId, wv_attrId = ''intensity'',
                          wv_value = intensity, wv_template = ''intensity'', wv_tags = None,
                          wv_associatedAnswerId = committedAnswerId,
                          wv_answerLabel = answerLabel \<rparr> (weightValues s))
                else weightValues s
            | None \<Rightarrow> weightValues s))
     else weightValues s)"

definition commitCurrentSelections ::
  "nodeMap \<Rightarrow> string \<Rightarrow> string \<Rightarrow> (nat \<Rightarrow> string) \<Rightarrow> EngineState \<Rightarrow> EngineState" where
  "commitCurrentSelections nm selA selR rnd s =
    (let cur = currentNodeId s;
         tempAnswer = tempAnswers s cur;
         tempRefinement = tempRefinements s cur;
         committedAnswerId = (case tempAnswer of Some a \<Rightarrow> Some (''sel-'' @ selA) | None \<Rightarrow> None);
         answerLabel0 = (case tempAnswer of Some a \<Rightarrow> Some (sa_label a) | None \<Rightarrow> None);
         answerLabel = (case tempRefinement of
                          Some r \<Rightarrow> if \<not> truthy answerLabel0 then Some (sr_label r) else answerLabel0
                        | None \<Rightarrow> answerLabel0);
         newAnswers = (case tempAnswer of
                         Some a \<Rightarrow> committedAnswers s @ [a\<lparr> sa_id := ''sel-'' @ selA \<rparr>]
                       | None \<Rightarrow> committedAnswers s);
         newRefinements = (case tempRefinement of
                             Some r \<Rightarrow> committedRefinements s @ [r\<lparr> sr_id := ''sel-'' @ selR \<rparr>]
                           | None \<Rightarrow> committedRefinements s);
         weights1 = commitIntensity s committedAnswerId answerLabel;
         contextual = contextualAnswer s committedAnswerId;
         finalAnswerId = orElse committedAnswerId (map_option fst contextual);
         finalAnswerLabel = orElse answerLabel (map_option snd contextual);
         weights2 = (case currentNode nm s of
                       None \<Rightarrow> weights1
                     | Some node \<Rightarrow>
                         commitWeights s finalAnswerId finalAnswerLabel rnd 0
                           (allWeights nm cur node) weights1);
         touched = (case currentNode nm s of
                      None \<Rightarrow> touchedWeights s
                    | Some node \<Rightarrow>
                        touchedWeights s - set (map wa_id (weightsOrEmpty (in_weights node))))
     in (clearTemp cur s)
          \<lparr> committedAnswers := newAnswers, committedRefinements := newRefinements,
            weightValues := weights2, touchedWeights := touched \<rparr>)"

subsection \<open>Navigation\<close>

text \<open>Pushing the successor, making it current and dropping the temporary entries of the
  node that is left: the block that advance and skip repeat on each of their paths.\<close>

definition moveTo :: "string \<Rightarrow> EngineState \<Rightarrow> EngineState" where
  "moveTo nextId s =
     (clearTemp (currentNodeId s) s)\<lparr> history := history s @ [nextId], currentNodeId := nextId \<rparr>"

definition hasNoAnswers :: "InterviewNode \<Rightarrow> bool" where
  "hasNoAnswers node = (case in_answers node of None \<Rightarrow> True | Some as \<Rightarrow> as = [])"

definition skipTarget :: "nodeMap \<Rightarrow> EngineState \<Rightarrow> string option" where
  "skipTarget nm s =
    (case currentNode nm s of
       None \<Rightarrow> None
     | Some node \<Rightarrow>
        if hasNoAnswers node \<and> startsWith (currentNodeId s) ''nsfw-'' \<and>
           currentNodeId s \<noteq> ''nsfw-options''
        then Some ''nsfw-options''
        else
          (case (case in_answers node of
                   Some (firstAnswer # rest) \<Rightarrow>
                     if truthy (ao_next firstAnswer) then ao_next firstAnswer else None
                 | _ \<Rightarrow> None) of
             Some nextId \<Rightarrow> Some nextId
           | None \<Rightarrow>
              (case in_refinements node of
                 Some (firstRefinement # rest) \<Rightarrow>
                   if rn_id firstRefinement \<noteq> [] then Some (rn_id firstRefinement) else None
               | _ \<Rightarrow> None)))"

definition skipToNext :: "nodeMap \<Rightarrow> EngineState \<Rightarrow> EngineState" where
  "skipToNext nm s = (case skipTarget nm s of None \<Rightarrow> s | Some nextId \<Rightarrow> moveTo nextId s)"

text \<open>The successor that advance resolves; \<open>None\<close> on every path that returns early.\<close>

definition nextTarget :: "nodeMap \<Rightarrow> EngineState \<Rightarrow> string option" where
  "nextTarget nm s =
    (case currentNode nm s of
       None \<Rightarrow> None
     | Some node \<Rightarrow>
        if hasNoAnswers node \<and> startsWith (currentNodeId s) ''nsfw-'' \<and>
           currentNodeId s \<noteq> ''nsfw-options'' \<and> nm ''nsfw-options'' \<noteq> None
        then Some ''nsfw-options''
        else if hasNoAnswers node then None
        else
          (let committedForNode =
                 find (\<lambda>a. sa_nodeId a = currentNodeId s) (committedAnswers s);
               temp = tempAnswers s (currentNodeId s);
               navAnswerSource = (case committedForNode of Some a \<Rightarrow> Some a | None \<Rightarrow> temp)
           in (case navAnswerSource of
                 None \<Rightarrow> None
               | Some src \<Rightarrow>
                  (case in_answers node of
                     None \<Rightarrow> None
                   | Some answers \<Rightarrow>
                      (case find (\<lambda>a. ao_id a = sa_answerId src) answers of
                         None \<Rightarrow> None
                       | Some answer \<Rightarrow>
                           if truthy (ao_next answer) then ao_next answer else None)))))"

definition goToNext :: "nodeMap \<Rightarrow> EngineState \<Rightarrow> EngineState" where
  "goToNext nm s = (case nextTarget nm s of None \<Rightarrow> s | Some nextId \<Rightarrow> moveTo nextId s)"

definition previous :: "EngineState \<Rightarrow> EngineState" where
  "previous s =
    (if length (history s) \<le> 1 then s
     else
       (let newHistory = butlast (history s);
            prevNodeId = last newHistory
        in (clearTemp (currentNodeId s) s)
             \<lparr> history := newHistory, currentNodeId := prevNodeId \<rparr>))"

definition jumpTo :: "nodeMap \<Rightarrow> string \<Rightarrow> EngineState \<Rightarrow> EngineState" where
  "jumpTo nm nodeId s =
    (if nm nodeId = None then s
     else (clearTemp (currentNodeId s) s)
            \<lparr> currentNodeId := nodeId,
              history := (if nodeId \<in> set (history s) then history s
                          else history s @ [nodeId]) \<rparr>)"

definition jumpToCategory :: "nodeMap \<Rightarrow> string \<Rightarrow> EngineState \<Rightarrow> EngineState" where
  "jumpToCategory nm nodeId s =
    (if nm nodeId = None then s
     else s\<lparr> currentNodeId := nodeId,
            history := (if nodeId \<in> set (history s) then history s
                        else history s @ [nodeId]) \<rparr>)"

subsection \<open>Sliders, custom elements, reset, removal, preview\<close>

definition setIntensity :: "string \<Rightarrow> number \<Rightarrow> EngineState \<Rightarrow> EngineState" where
  "setIntensity nodeId v s = s\<lparr> tempIntensities := (tempIntensities s)(nodeId \<mapsto> v) \<rparr>"

definition setSliderEnabled :: "string \<Rightarrow> bool \<Rightarrow> EngineState \<Rightarrow> EngineState" where
  "setSliderEnabled attrId enabled s = s\<lparr> enabledSliders := (enabledSliders s)(attrId \<mapsto> enabled) \<rparr>"

definition setWeight ::
  "string \<Rightarrow> number \<Rightarrow> string \<Rightarrow> string list option \<Rightarrow> EngineState \<Rightarrow> EngineState" where
  "setWeight attrId v template tags s =
    (let existingWeight =
           find (\<lambda>e. wv_attrId (snd e) = attrId \<and> \<not> truthy (wv_associatedAnswerId (snd e)))
             (weightValues s);
         weights =
           (case existingWeight of
              Some e \<Rightarrow>
                mapSet (fst e) ((snd e)\<lparr> wv_value := v, wv_template := template, wv_tags := tags \<rparr>)
                  (weightValues s)
            | None \<Rightarrow>
                mapSet attrId
                  \<lparr> wv_id = ''temp-'' @ attrId, wv_attrId = attrId, wv_value = v,
                    wv_template = template, wv_tags = tags, wv_associatedAnswerId = None,
                    wv_answerLabel = None \<rparr> (weightValues s))
     in s\<lparr> weightValues := weights, touchedWeights := insert attrId (touchedWeights s) \<rparr>)"

definition addCustomElement :: "string \<Rightarrow> EngineState \<Rightarrow> EngineState" where
  "addCustomElement element s =
     s\<lparr> customElements := customElements s @
          [\<lparr> ce_text = element, ce_enabled = False, ce_type = prompt_type \<rparr>] \<rparr>"

definition mapAt :: "nat \<Rightarrow> ('a \<Rightarrow> 'a) \<Rightarrow> 'a list \<Rightarrow> 'a list" where
  "mapAt index f xs = map (\<lambda>(i, item). if i = index then f item else item) (enumerate 0 xs)"

definition setCustomElementType :: "nat \<Rightarrow> ElementType \<Rightarrow> EngineState \<Rightarrow> EngineState" where
  "setCustomElementType index ty s =
     s\<lparr> customElements := mapAt index (\<lambda>item. item\<lparr> ce_type := ty \<rparr>) (customElements s) \<rparr>"

definition removeCustomElement :: "nat \<Rightarrow> EngineState \<Rightarrow> EngineState" where
  "removeCustomElement index s =
     s\<lparr> customElements :=
          map snd (filter (\<lambda>(i, item). i \<noteq> index) (enumerate 0 (customElements s))) \<rparr>"

definition toggleCustomElement :: "nat \<Rightarrow> EngineState \<Rightarrow> EngineState" where
  "toggleCustomElement index s =
     s\<lparr> customElements :=
          mapAt index (\<lambda>item. item\<lparr> ce_enabled := \<not> ce_enabled item \<rparr>) (customElements s) \<rparr>"

definition reset :: "EngineState \<Rightarrow> EngineState" where
  "reset s = initialState"

text \<open>The weights that the preview hands to the assembler.\<close>

definition previewWeights :: "EngineState \<Rightarrow> WeightValue list" where
  "previewWeights s =
    (let committedAnswerIds = set (map sa_id (committedAnswers s))
     in filter (\<lambda>w. \<not> truthy (wv_associatedAnswerId w) \<or>
                    (case wv_associatedAnswerId w of
                       Some i \<Rightarrow> i \<in> committedAnswerIds
                     | None \<Rightarrow> False))
          (map snd (weightValues s)))"

definition getPreviewPrompt ::
  "sanitizer \<Rightarrow> (real \<Rightarrow> string) \<Rightarrow> EngineState \<Rightarrow> error + AssembledPrompt" where
  "getPreviewPrompt sanitizeTemplate numberToString s =
     assemblePrompt sanitizeTemplate numberToString (committedAnswers s)
       (committedRefinements s) (previewWeights s) (customElements s)"

definition removeSelection :: "string \<Rightarrow> EngineState \<Rightarrow> EngineState" where
  "removeSelection selectionId s =
     s\<lparr> committedAnswers := filter (\<lambda>a. sa_id a \<noteq> selectionId) (committedAnswers s),
        committedRefinements := filter (\<lambda>r. sr_id r \<noteq> selectionId) (committedRefinements s),
        weightValues :=
          foldl (\<lambda>m e. if wv_associatedAnswerId (snd e) = Some selectionId
                        then mapDelete (fst e) m else m)
            (weightValues s) (weightValues s) \<rparr>"

subsection \<open>Sessions\<close>

datatype Operation =
    SelectTempAnswer string
  | SelectTempRefinement string
  | SetIntensity string number
  | CommitCurrentSelections string string "nat \<Rightarrow> string"
  | RemoveSelection string
  | GoToNext
  | SkipToNext
  | Previous
  | JumpTo string
  | JumpToCategory string
  | SetWeight string number string "string list option"
  | SetSliderEnabled string bool
  | AddCustomElement string
  | RemoveCustomElement nat
  | ToggleCustomElement nat
  | SetCustomElementType nat ElementType
  | Reset

fun perform :: "nodeMap \<Rightarrow> EngineState \<Rightarrow> Operation \<Rightarrow> EngineState" where
  "perform nm s (SelectTempAnswer a) = selectTempAnswer nm a s"
| "perform nm s (SelectTempRefinement a) = selectTempRefinement nm a s"
| "perform nm s (SetIntensity n v) = setIntensity n v s"
| "perform nm s (CommitCurrentSelections selA selR rnd) = commitCurrentSelections nm selA selR rnd s"
| "perform nm s (RemoveSelection i) = removeSelection i s"
| "perform nm s GoToNext = goToNext nm s"
| "perform nm s SkipToNext = skipToNext nm s"
| "perform nm s Previous = previous s"
| "perform nm s (JumpTo n) = jumpTo nm n s"
| "perform nm s (JumpToCategory n) = jumpToCategory nm n s"
| "perform nm s (SetWeight a v t tags) = setWeight a v t tags s"
| "perform nm s (SetSliderEnabled a e) = setSliderEnabled a e s"
| "perform nm s (AddCustomElement e) = addCustomElement e s"
| "perform nm s (RemoveCustomElement i) = removeCustomElement i s"
| "perform nm s (ToggleCustomElement i) = toggleCustomElement i s"
| "perform nm s (SetCustomElementType i ty) = setCustomElementType i ty s"
| "perform nm s Reset = reset s"

text \<open>The state of a session after a sequence of operations.\<close>

definition session :: "nodeMap \<Rightarrow> Operation list \<Rightarrow> EngineState" where
  "session nm ops = foldl (perform nm) initialState ops"

section \<open>Notions used in the statements\<close>

text \<open>
  The tags whose rule leaves a text alone once the text mentions the topic, and otherwise
  prepends a phrase that mentions it. The rules for \<open>hair\<close>, \<open>face\<close> and \<open>materials\<close> are
  not of this kind.
\<close>

definition guardedTags :: "string list" where
  "guardedTags =
     [''eyes'', ''environment'', ''lighting'', ''camera'', ''color'', ''clothing'',
      ''fabric'', ''armor'', ''magic'', ''expression'', ''pose'']"

definition ruleKeyword :: "string \<Rightarrow> string" where
  "ruleKeyword g =
     (if g = ''eyes'' then ''eye'' else if g = ''lighting'' then ''light'' else g)"

definition rulePrefix :: "string \<Rightarrow> string" where
  "rulePrefix g =
     (if g = ''eyes'' then ''eye '' else if g = ''color'' then ''color style ''
      else if g = ''magic'' then ''magical '' else g @ '' '')"

text \<open>What the rule of a guarded tag makes of a primitive string.\<close>

definition guardedStep :: "string \<Rightarrow> string \<Rightarrow> string" where
  "guardedStep t g =
    (if g = ''environment'' \<and> includesStr t ''depth'' then ''environment depth layering''
     else if includesStr t (ruleKeyword g) then t
     else rulePrefix g @ t)"

text \<open>A text that lower-casing and trimming leave as it is, and that is not empty.\<close>

definition cleanStr :: "string \<Rightarrow> bool" where
  "cleanStr s =
     (s \<noteq> [] \<and> toLowerCase s = s \<and> \<not> isWhiteSpace (hd s) \<and> \<not> isWhiteSpace (last s))"

text \<open>
  A small node graph for concrete sessions: the root question leads to the body-build
  question, which leads to a hair question with one weight; a refinement node and a
  weight-only node stand beside them.
\<close>

definition exampleGraph :: nodeMap where
  "exampleGraph = map_of
     [(''root'',
        \<lparr> in_id = ''root'', in_question = ''What is the subject?'',
          in_answers = Some [\<lparr> ao_id = ''male'', ao_label = ''Male'',
                                ao_next = Some ''character-build'' \<rparr>],
          in_weights = None, in_refinements = None \<rparr>),
      (''character-build'',
        \<lparr> in_id = ''character-build'', in_question = ''What is the body build?'',
          in_answers = Some [\<lparr> ao_id = ''slim'', ao_label = ''Slim'',
                                ao_next = Some ''hair-style'' \<rparr>],
          in_weights = None, in_refinements = None \<rparr>),
      (''hair-style'',
        \<lparr> in_id = ''hair-style'', in_question = ''What is the hair style?'',
          in_answers = Some [\<lparr> ao_id = ''braid'', ao_label = ''Braid'', ao_next = None \<rparr>],
          in_weights = None, in_refinements = None \<rparr>),
      (''refine-eyes'',
        \<lparr> in_id = ''refine-eyes'', in_question = ''Which eye color?'',
          in_answers = Some [\<lparr> ao_id = ''green'', ao_label = ''Green'', ao_next = None \<rparr>],
          in_weights = None, in_refinements = None \<rparr>),
      (''eye-detail'',
        \<lparr> in_id = ''eye-detail'', in_question = ''How detailed?'',
          in_answers = None,
          in_weights = Some [\<lparr> wa_id = ''glow'', wa_label = ''Glow'', wa_template = ''glow'',
                                wa_min = Finite 0, wa_max = Finite 2, wa_step = Finite (1/10),
                                wa_default = Finite 1,
                                wa_tags = Some [''eyes''] \<rparr>],
          in_refinements = None \<rparr>)]"

text \<open>The condition under which the last entry of the history is the current node.\<close>

definition atTop :: "EngineState \<Rightarrow> bool" where
  "atTop s = (history s \<noteq> [] \<and> last (history s) = currentNodeId s)"

text \<open>
  A tag is plain when the rule table finds no inherited member under its name; a
  collection of weights is plain when all tags of all its weights are.
\<close>

definition plainTag :: "string \<Rightarrow> bool" where
  "plainTag tag = (inheritedMember tag = None)"

definition plainWeights :: "WeightValue list \<Rightarrow> bool" where
  "plainWeights ws = list_all (\<lambda>w. list_all plainTag (tagsOrEmpty (wv_tags w))) ws"

text \<open>
  The text that the loop over the weights looks up in \<open>seen\<close> for a weight, if the weight
  gets that far: the sanitized lower-cased label for an intensity weight that has a label
  and is not bound to a root answer, the sanitized normalized template for a weight that
  is no intensity weight, and none for the intensity weights that are skipped (and for a
  weight whose normalization raises).
\<close>

definition dedupKey :: "sanitizer \<Rightarrow> SelectedAnswer list \<Rightarrow> WeightValue \<Rightarrow> string option" where
  "dedupKey sanitizeTemplate answers w =
    (if wv_attrId w = ''intensity'' then
       (case wv_answerLabel w of
          Some l \<Rightarrow>
            if l \<noteq> [] \<and> \<not> isRootAnswer answers w
            then Some (sanitizeTemplate (JsString (toLowerCase l)) (tagsOrEmpty (wv_tags w)))
            else None
        | None \<Rightarrow> None)
     else
       (case normalizeTemplate (contextualTemplate w) (tagsOrEmpty (wv_tags w)) of
          Inr normalizedTemplate \<Rightarrow>
            Some (sanitizeTemplate normalizedTemplate (tagsOrEmpty (wv_tags w)))
        | Inl e \<Rightarrow> None))"

definition keysOf :: "sanitizer \<Rightarrow> SelectedAnswer list \<Rightarrow> WeightValue list \<Rightarrow> string set" where
  "keysOf sanitizeTemplate answers ws = set (List.map_filter (dedupKey sanitizeTemplate answers) ws)"

text \<open>
  The loop over the weights as a list of pairs of text and value, one pair for each part
  pushed, so that the text of a part can be told from its rendered value.
\<close>

fun weightPairs ::
  "sanitizer \<Rightarrow> SelectedAnswer list \<Rightarrow> string set \<Rightarrow> WeightValue list \<Rightarrow> (string \<times> number) list"
where
  "weightPairs sanitizeTemplate answers seen [] = []"
| "weightPairs sanitizeTemplate answers seen (w # ws) =
    (case dedupKey sanitizeTemplate answers w of
       None \<Rightarrow> weightPairs sanitizeTemplate answers seen ws
     | Some k \<Rightarrow>
         if k \<in> seen then weightPairs sanitizeTemplate answers seen ws
         else (k, wv_value w) # weightPairs sanitizeTemplate answers (insert k seen) ws)"

definition renderPair :: "(real \<Rightarrow> string) \<Rightarrow> string \<times> number \<Rightarrow> string" where
  "renderPair numberToString p = fragment numberToString (fst p) (snd p)"

text \<open>A rendering with exactly two decimal places: an optional minus sign, one digit or
  more, a point, and two digits.\<close>

definition isDigit :: "char \<Rightarrow> bool" where
  "isDigit c = (c \<in> set ''0123456789'')"

definition twoDecimals :: "string \<Rightarrow> bool" where
  "twoDecimals r =
     (\<exists>sign ip d1 d2. r = sign @ ip @ ''.'' @ [d1, d2] \<and> (sign = [] \<or> sign = ''-'') \<and>
        ip \<noteq> [] \<and> list_all isDigit ip \<and> isDigit d1 \<and> isDigit d2)"

text \<open>The weight that commit stores for a weight definition of the node when the context
  has the identifier \<open>f\<close> and the label \<open>lbl\<close>.\<close>

definition boundWeight :: "EngineState \<Rightarrow> string \<Rightarrow> string \<Rightarrow> WeightAttr \<Rightarrow> WeightValue" where
  "boundWeight s f lbl wa =
     \<lparr> wv_id = ''weight-'' @ f @ ''-'' @ wa_id wa, wv_attrId = wa_id wa,
       wv_value = (case currentWeightOf s (wa_id wa) of Some w \<Rightarrow> wv_value w
                   | None \<Rightarrow> wa_default wa),
       wv_template = wa_template wa,
       wv_tags = (case currentWeightOf s (wa_id wa) of Some w \<Rightarrow> wv_tags w
                  | None \<Rightarrow> wa_tags wa),
       wv_associatedAnswerId = Some f, wv_answerLabel = Some lbl \<rparr>"


section \<open>Properties of the string primitives\<close>

lemma toLowerChar_idem: "toLowerChar (toLowerChar c) = toLowerChar c"
  by (simp add: toLowerChar_def Let_def)

lemma toLowerCase_idem: "toLowerCase (toLowerCase s) = toLowerCase s"
  by (simp add: toLowerCase_def toLowerChar_idem)

lemma toLowerCase_append: "toLowerCase (a @ b) = toLowerCase a @ toLowerCase b"
  by (simp add: toLowerCase_def)

lemma toLowerCase_fixed_iff: "toLowerCase s = s \<longleftrightarrow> (\<forall>c\<in>set s. toLowerChar c = c)"
  by (induction s) (auto simp: toLowerCase_def)

lemma set_trim: "set (trim s) \<subseteq> set s"
  by (auto simp: trim_def dest!: set_dropWhileD)

lemma trim_clean: "cleanStr s \<Longrightarrow> trim s = s"
proof -
  assume c: "cleanStr s"
  then obtain x xs where s: "s = x # xs" by (cases s) (auto simp: cleanStr_def)
  with c have 1: "dropWhile isWhiteSpace s = s" by (simp add: cleanStr_def)
  from c have "rev s \<noteq> []" "\<not> isWhiteSpace (hd (rev s))"
    by (auto simp: cleanStr_def hd_rev)
  then have 2: "dropWhile isWhiteSpace (rev s) = rev s" by (cases "rev s") auto
  show ?thesis by (simp add: trim_def 1 2)
qed

lemma trim_ends:
  assumes "trim s \<noteq> []"
  shows "\<not> isWhiteSpace (hd (trim s))" and "\<not> isWhiteSpace (last (trim s))"
proof -
  define ys where "ys = dropWhile isWhiteSpace s"
  define d where "d = dropWhile isWhiteSpace (rev ys)"
  have t: "trim s = rev d" by (simp add: trim_def d_def ys_def)
  with assms have ne: "d \<noteq> []" by simp
  then show "\<not> isWhiteSpace (last (trim s))"
    unfolding t d_def using hd_dropWhile[of isWhiteSpace "rev ys"] by (simp add: last_rev)
  have "rev ys = takeWhile isWhiteSpace (rev ys) @ d" by (simp add: d_def)
  then have "rev (rev ys) = rev (takeWhile isWhiteSpace (rev ys) @ d)" by (rule arg_cong)
  then have split: "ys = rev d @ rev (takeWhile isWhiteSpace (rev ys))" by simp
  then have "ys \<noteq> []" using ne by auto
  then have "\<not> isWhiteSpace (hd ys)" unfolding ys_def using hd_dropWhile by blast
  moreover have "hd ys = hd (rev d)" using ne by (subst split) simp
  ultimately show "\<not> isWhiteSpace (hd (trim s))" by (simp add: t)
qed

lemma trim_lower_clean:
  assumes "trim (toLowerCase t) \<noteq> []" shows "cleanStr (trim (toLowerCase t))"
proof -
  have "toLowerCase (trim (toLowerCase t)) = trim (toLowerCase t)"
    using set_trim[of "toLowerCase t"] toLowerCase_idem[of t]
    by (auto simp: toLowerCase_fixed_iff)
  then show ?thesis using assms trim_ends[OF assms] by (simp add: cleanStr_def)
qed

section \<open>The template normalizer, applied twice\<close>

lemma includesStr_appendI: "includesStr t k \<Longrightarrow> includesStr (p @ t) k"
  unfolding includesStr_def by (metis sublist_append)

lemma includesStr_prefixI: "includesStr p k \<Longrightarrow> includesStr (p @ t) k"
  unfolding includesStr_def by (metis sublist_append)

lemma depth_prefixes:
  "includesStr (''eye '' @ t) ''depth'' = includesStr t ''depth''"
  "includesStr (''environment '' @ t) ''depth'' = includesStr t ''depth''"
  "includesStr (''lighting '' @ t) ''depth'' = includesStr t ''depth''"
  "includesStr (''camera '' @ t) ''depth'' = includesStr t ''depth''"
  "includesStr (''color style '' @ t) ''depth'' = includesStr t ''depth''"
  "includesStr (''clothing '' @ t) ''depth'' = includesStr t ''depth''"
  "includesStr (''fabric '' @ t) ''depth'' = includesStr t ''depth''"
  "includesStr (''armor '' @ t) ''depth'' = includesStr t ''depth''"
  "includesStr (''magical '' @ t) ''depth'' = includesStr t ''depth''"
  "includesStr (''expression '' @ t) ''depth'' = includesStr t ''depth''"
  "includesStr (''pose '' @ t) ''depth'' = includesStr t ''depth''"
  by (simp_all add: includesStr_def sublist_code)

lemma guardedTags_cases:
  "g \<in> set guardedTags \<Longrightarrow> g = ''eyes'' \<or> g = ''environment'' \<or> g = ''lighting'' \<or> g = ''camera'' \<or>
     g = ''color'' \<or> g = ''clothing'' \<or> g = ''fabric'' \<or> g = ''armor'' \<or> g = ''magic'' \<or>
     g = ''expression'' \<or> g = ''pose''"
  by (simp add: guardedTags_def)

lemma guarded_rule:
  assumes "g \<in> set guardedTags"
  shows "\<exists>f. NORMALIZATION_RULES g = Some f \<and> f (JsString t) = Inr (JsString (guardedStep t g))"
  using guardedTags_cases[OF assms]
  by (elim disjE)
     (simp_all add: NORMALIZATION_RULES_def ruleKeyword_def rulePrefix_def guardedStep_def
        prefixUnless_def
        rule_eyes_def rule_environment_def rule_lighting_def rule_camera_def rule_color_def
        rule_clothing_def rule_fabric_def rule_armor_def rule_magic_def rule_expression_def
        rule_pose_def)

lemma applyRules_guarded:
  "set tags \<subseteq> set guardedTags \<Longrightarrow>
   applyRules (JsString t) tags = Inr (JsString (foldl guardedStep t tags))"
proof (induction tags arbitrary: t)
  case Nil
  then show ?case by simp
next
  case (Cons g tags)
  then have g: "g \<in> set guardedTags" and rest: "set tags \<subseteq> set guardedTags" by simp_all
  from guarded_rule[OF g, of t] obtain f where
    f: "NORMALIZATION_RULES g = Some f" "f (JsString t) = Inr (JsString (guardedStep t g))"
    by blast
  show ?case using f Cons.IH[OF rest] by simp
qed

lemma prefix_facts:
  assumes "g \<in> set guardedTags"
  shows "includesStr (rulePrefix g) (ruleKeyword g)"
    and "toLowerCase (rulePrefix g) = rulePrefix g"
    and "rulePrefix g \<noteq> []"
    and "\<not> isWhiteSpace (hd (rulePrefix g))"
    and "includesStr (rulePrefix g @ t) ''depth'' = includesStr t ''depth''"
  using guardedTags_cases[OF assms]
  by (elim disjE; simp add: ruleKeyword_def rulePrefix_def includesStr_def sublist_code
        toLowerCase_def toLowerChar_def isWhiteSpace_def)+

lemma envPhrase_facts:
  "cleanStr ''environment depth layering''"
  "includesStr ''environment depth layering'' ''depth''"
  "includesStr ''environment depth layering'' ''environment''"
  by (simp_all add: cleanStr_def includesStr_def sublist_code toLowerCase_def toLowerChar_def
        isWhiteSpace_def)

lemma guardedStep_clean:
  assumes "cleanStr t" "g \<in> set guardedTags"
  shows "cleanStr (guardedStep t g)"
  using assms prefix_facts(2,3,4)[OF assms(2)] envPhrase_facts(1)
  by (auto simp: guardedStep_def cleanStr_def toLowerCase_append)

lemma guardedStep_keyword:
  assumes "g \<in> set guardedTags"
  shows "includesStr (guardedStep t g) (ruleKeyword g)"
proof (cases "g = ''environment'' \<and> includesStr t ''depth''")
  case True
  then show ?thesis
    using assms envPhrase_facts(3) by (simp add: guardedStep_def ruleKeyword_def)
next
  case False
  then show ?thesis
    using includesStr_prefixI[OF prefix_facts(1)[OF assms], of t]
    by (auto simp: guardedStep_def)
qed

lemma guardedStep_keeps:
  assumes "g \<in> set guardedTags" "includesStr t k" "\<not> (g = ''environment'' \<and> includesStr t ''depth'')"
  shows "includesStr (guardedStep t g) k"
  using assms by (auto simp: guardedStep_def intro: includesStr_appendI)

lemma guardedStep_depth:
  assumes "g \<in> set guardedTags"
  shows "includesStr (guardedStep t g) ''depth'' = includesStr t ''depth''"
  using prefix_facts(5)[OF assms] envPhrase_facts(2)
  by (auto simp: guardedStep_def)

lemma guardedStep_fixed:
  assumes "g \<in> set guardedTags" "includesStr t (ruleKeyword g)"
    "\<not> (g = ''environment'' \<and> includesStr t ''depth'')"
  shows "guardedStep t g = t"
  using assms by (auto simp: guardedStep_def)

lemma foldl_guardedStep_clean:
  "cleanStr t \<Longrightarrow> set tags \<subseteq> set guardedTags \<Longrightarrow> cleanStr (foldl guardedStep t tags)"
  by (induction tags arbitrary: t) (auto simp: guardedStep_clean)

lemma foldl_guardedStep_depth:
  "set tags \<subseteq> set guardedTags \<Longrightarrow>
     includesStr (foldl guardedStep t tags) ''depth'' = includesStr t ''depth''"
  by (induction tags arbitrary: t) (auto simp: guardedStep_depth)

lemma foldl_guardedStep_fixed:
  "(\<And>g. g \<in> set tags \<Longrightarrow> guardedStep r g = r) \<Longrightarrow> foldl guardedStep r tags = r"
  by (induction tags) auto

text \<open>Without a rewrite to the fixed environment phrase, every rule only prepends.\<close>

lemma foldl_guardedStep_keywords:
  assumes "set tags \<subseteq> G" "G \<subseteq> set guardedTags"
    "''environment'' \<in> G \<Longrightarrow> \<not> includesStr t ''depth''"
  shows "\<forall>g\<in>set tags. includesStr (foldl guardedStep t tags) (ruleKeyword g)"
  using assms(1)
proof (induction tags rule: rev_induct)
  case Nil
  then show ?case by simp
next
  case (snoc h tags)
  let ?r = "foldl guardedStep t tags"
  from snoc.prems have h: "h \<in> set guardedTags" and sub: "set tags \<subseteq> G" and hG: "h \<in> G"
    using assms(2) by auto
  have nd: "\<not> (h = ''environment'' \<and> includesStr ?r ''depth'')"
    using assms(3) hG foldl_guardedStep_depth[of tags t] sub assms(2) by auto
  show ?case
    using snoc.IH[OF sub] guardedStep_keyword[OF h] guardedStep_keeps[OF h _ nd] by auto
qed

lemma second_pass_simple:
  assumes "set tags \<subseteq> set guardedTags"
    "''environment'' \<in> set tags \<Longrightarrow> \<not> includesStr t ''depth''"
  shows "foldl guardedStep (foldl guardedStep t tags) tags = foldl guardedStep t tags"
proof (rule foldl_guardedStep_fixed)
  fix g assume g: "g \<in> set tags"
  let ?r = "foldl guardedStep t tags"
  have "includesStr ?r (ruleKeyword g)"
    using foldl_guardedStep_keywords[of tags "set tags" t] assms g by blast
  moreover have "\<not> (g = ''environment'' \<and> includesStr ?r ''depth'')"
    using assms g foldl_guardedStep_depth[of tags t] by auto
  ultimately show "guardedStep ?r g = ?r" using guardedStep_fixed g assms(1) by blast
qed

text \<open>Once the text mentions depth, the last environment tag resets it to the fixed phrase.\<close>

lemma second_pass_reset:
  assumes "set tags \<subseteq> set guardedTags" "''environment'' \<in> set tags"
    "includesStr s ''depth''" "includesStr s' ''depth''"
  shows "foldl guardedStep s tags = foldl guardedStep s' tags"
  using assms
proof (induction tags arbitrary: s s')
  case Nil
  then show ?case by simp
next
  case (Cons g tags)
  show ?case
  proof (cases "g = ''environment''")
    case True
    then have "guardedStep s g = guardedStep s' g"
      using Cons.prems by (simp add: guardedStep_def)
    then show ?thesis by simp
  next
    case False
    with Cons.prems have e: "''environment'' \<in> set tags" and t: "set tags \<subseteq> set guardedTags"
      and g: "g \<in> set guardedTags" by auto
    have "foldl guardedStep (guardedStep s g) tags = foldl guardedStep (guardedStep s' g) tags"
      using Cons.prems(3,4) by (intro Cons.IH[OF t e]) (simp_all add: guardedStep_depth[OF g])
    then show ?thesis by simp
  qed
qed

lemma normalize_twice:
  assumes "set tags \<subseteq> set guardedTags" "cleanStr t"
  shows "foldl guardedStep (trim (toLowerCase (foldl guardedStep t tags))) tags = foldl guardedStep t tags"
proof -
  let ?r = "foldl guardedStep t tags"
  have c: "cleanStr ?r" using assms by (simp add: foldl_guardedStep_clean)
  then have "trim (toLowerCase ?r) = ?r" using trim_clean by (simp add: cleanStr_def)
  moreover have "foldl guardedStep ?r tags = ?r"
  proof (cases "''environment'' \<in> set tags \<and> includesStr t ''depth''")
    case True
    then have "includesStr ?r ''depth''" using assms(1) by (simp add: foldl_guardedStep_depth)
    then show ?thesis using second_pass_reset[OF assms(1), of ?r t] True by simp
  next
    case False
    then show ?thesis using second_pass_simple[OF assms(1), of t] by blast
  qed
  ultimately show ?thesis by simp
qed

text \<open>
  Claim C1, as amended. For every template whose lower-cased, trimmed form is not empty
  (or with no tags at all) and every tag list drawn from the guarded tags (eyes,
  environment, lighting, camera, color, clothing, fabric, armor, magic, expression, pose),
  the normalizer returns a primitive string, and normalizing that string a second time
  with the same tags returns it unchanged.
\<close>

theorem normalize_idempotent_guarded:
  assumes "set tags \<subseteq> set guardedTags"
    and "trim (toLowerCase t) \<noteq> [] \<or> tags = []"
  shows "\<exists>r. normalizeTemplate t tags = Inr (JsString r) \<and>
             normalizeTemplate r tags = Inr (JsString r)"
proof (cases "trim (toLowerCase t) = []")
  case False
  let ?r = "foldl guardedStep (trim (toLowerCase t)) tags"
  have "normalizeTemplate t tags = Inr (JsString ?r)"
    by (simp add: normalizeTemplate_def applyRules_guarded[OF assms(1)])
  moreover have "normalizeTemplate ?r tags = Inr (JsString ?r)"
    using normalize_twice[OF assms(1) trim_lower_clean[OF False]]
    by (simp add: normalizeTemplate_def applyRules_guarded[OF assms(1)])
  ultimately show ?thesis by blast
next
  case True
  with assms(2) have "tags = []" by simp
  moreover have "trim (toLowerCase []) = []" by (simp add: trim_def toLowerCase_def)
  ultimately show ?thesis using True by (simp add: normalizeTemplate_def)
qed

theorem normalize_idempotent_guarded_witness:
  "set [''eyes'', ''environment'', ''camera''] \<subseteq> set guardedTags \<and>
   trim (toLowerCase ''Depth of Iris'') \<noteq> [] \<and>
   normalizeTemplate ''Depth of Iris'' [''eyes'', ''environment'', ''camera'']
     = Inr (JsString ''camera environment depth layering'') \<and>
   normalizeTemplate ''camera environment depth layering'' [''eyes'', ''environment'', ''camera'']
     = Inr (JsString ''camera environment depth layering'')"
proof -
  have t: "set [''eyes'', ''environment'', ''camera''] \<subseteq> set guardedTags"
    by (simp add: guardedTags_def)
  have n: "trim (toLowerCase ''Depth of Iris'') \<noteq> []" by code_simp
  have v: "normalizeTemplate ''Depth of Iris'' [''eyes'', ''environment'', ''camera'']
             = Inr (JsString ''camera environment depth layering'')" by code_simp
  from normalize_idempotent_guarded[OF t disjI1[OF n]] obtain r where
    "normalizeTemplate ''Depth of Iris'' [''eyes'', ''environment'', ''camera''] = Inr (JsString r)"
    "normalizeTemplate r [''eyes'', ''environment'', ''camera''] = Inr (JsString r)"
    by blast
  with v t n show ?thesis by simp
qed

text \<open>
  Claim C1, as stated, fails: the rule for \<open>materials\<close> appends its phrase every time, the
  fallback of \<open>hair\<close> prepends every time, the phrase that \<open>face\<close> prepends does not contain
  the word it tests for, and an empty template leaves a trailing blank that the second
  pass trims.
\<close>

theorem normalize_not_idempotent:
  "normalizeTemplate ''gloss'' [''materials''] = Inr (JsString ''gloss material texture'') \<and>
   normalizeTemplate ''gloss material texture'' [''materials'']
     = Inr (JsString ''gloss material texture material texture'') \<and>
   normalizeTemplate ''braid'' [''hair''] = Inr (JsString ''hairstyle with braid'') \<and>
   normalizeTemplate ''hairstyle with braid'' [''hair'']
     = Inr (JsString ''hairstyle with hairstyle with braid'') \<and>
   normalizeTemplate ''scar'' [''face''] = Inr (JsString ''facial scar'') \<and>
   normalizeTemplate ''facial scar'' [''face''] = Inr (JsString ''facial facial scar'') \<and>
   normalizeTemplate [] [''eyes''] = Inr (JsString ''eye '') \<and>
   normalizeTemplate ''eye '' [''eyes''] = Inr (JsString ''eye'')"
  by code_simp

section \<open>The expander outside the anatomical context\<close>

text \<open>
  Claim C2, as amended. When the lower-cased question matches none of the anatomical
  heuristics, the expander returns the label unchanged unless the lower-cased, trimmed
  label is in the catalogue of intensity adjectives or in the catalogue of shape keywords.
\<close>

theorem expand_unchanged_outside_context:
  assumes "\<not> isBreastContext (toLowerCase question)"
    and "trim (toLowerCase label) \<notin> set ABSTRACT_ANSWERS"
    and "trim (toLowerCase label) \<notin> set BREAST_SHAPE_KEYWORDS"
  shows "expandAbstractAnswer label question = label"
  using assms by (simp add: expandAbstractAnswer_def Let_def)

theorem expand_unchanged_outside_context_witness:
  "\<not> isBreastContext (toLowerCase ''What is the face shape?'') \<and>
   trim (toLowerCase ''Oval'') \<notin> set ABSTRACT_ANSWERS \<and>
   trim (toLowerCase ''Oval'') \<notin> set BREAST_SHAPE_KEYWORDS \<and>
   expandAbstractAnswer ''Oval'' ''What is the face shape?'' = ''Oval''"
proof -
  have c: "\<not> isBreastContext (toLowerCase ''What is the face shape?'')" by code_simp
  have a: "trim (toLowerCase ''Oval'') \<notin> set ABSTRACT_ANSWERS" by code_simp
  have b: "trim (toLowerCase ''Oval'') \<notin> set BREAST_SHAPE_KEYWORDS" by code_simp
  from expand_unchanged_outside_context[OF c a b] c a b show ?thesis by simp
qed

text \<open>
  Claim C2, as stated, fails: a shape keyword that is no intensity adjective is expanded
  outside the anatomical context as well.
\<close>

theorem expand_round_outside_context:
  "\<not> isBreastContext (toLowerCase ''What is the face shape?'') \<and>
   trim (toLowerCase ''round'') \<notin> set ABSTRACT_ANSWERS \<and>
   expandAbstractAnswer ''round'' ''What is the face shape?'' = ''round physical trait'' \<and>
   \<not> isBreastContext (toLowerCase ''Which pendant?'') \<and>
   trim (toLowerCase ''teardrop'') \<notin> set ABSTRACT_ANSWERS \<and>
   expandAbstractAnswer ''teardrop'' ''Which pendant?'' = ''teardrop visual effect''"
  by code_simp

section \<open>A single answer at the root\<close>

lemma expand_Male: "expandAbstractAnswer ''Male'' q = ''Male''"
proof -
  have a: "trim (toLowerCase ''Male'') = ''male''" by code_simp
  show ?thesis
    by (simp add: expandAbstractAnswer_def Let_def a ABSTRACT_ANSWERS_def
          BREAST_SHAPE_KEYWORDS_def)
qed

lemma lower_Male: "toLowerCase ''Male'' = ''male''" "trim ''male'' = ''male''"
  by code_simp+

lemma join_negativeParts:
  "join '', '' (negativeParts @ customNegativeElements []) =
   ''deformed, distorted, extra limbs, low detail, low quality, bad anatomy''"
  by (simp add: negativeParts_def customNegativeElements_def)

text \<open>
  Claim C3, as amended. For a single committed answer with label \<open>Male\<close> at node \<open>root\<close>,
  with no refinements, weights or custom elements, the prompt is the label as stored,
  \<open>Male\<close>, when the answer has no question text or the question matches neither subject
  pattern, and \<open>male\<close> followed by a blank and the extracted subject otherwise; the
  negative prompt is the base list joined by a comma and a blank.
\<close>

theorem root_male_answer_prompt:
  "assemblePrompt sanitizeTemplate numberToString
     [\<lparr> sa_id = i, sa_nodeId = ''root'', sa_answerId = aid, sa_label = ''Male'',
        sa_questionText = qt \<rparr>] [] [] []
   = Inr \<lparr> prompt =
         (case qt of
            None \<Rightarrow> ''Male''
          | Some q \<Rightarrow>
              (case (if q = [] then None else matchSubject (toLowerCase q)) of
                 None \<Rightarrow> ''Male''
               | Some m \<Rightarrow> if m \<noteq> [] then ''male '' @ trim m else ''Male'')),
       negativePrompt =
         ''deformed, distorted, extra limbs, low detail, low quality, bad anatomy'' \<rparr>"
  by (simp add: assemblePrompt_def promptParts_def join_negativeParts customPromptElements_def
        answerPart_def expand_Male lower_Male ABSTRACT_ANSWERS_def Let_def
        split: option.splits)

theorem root_male_answer_prompt_witness:
  "assemblePrompt (\<lambda>t tags. textOf t) (\<lambda>x. ''1e+21'')
     [\<lparr> sa_id = ''sel-1'', sa_nodeId = ''root'', sa_answerId = ''male'', sa_label = ''Male'',
        sa_questionText = Some ''What is the subject?'' \<rparr>] [] [] []
   = Inr \<lparr> prompt = ''male subject'',
       negativePrompt =
         ''deformed, distorted, extra limbs, low detail, low quality, bad anatomy'' \<rparr>"
proof -
  have m: "matchSubject (toLowerCase ''What is the subject?'') = Some ''subject''" by code_simp
  have t: "trim ''subject'' = ''subject''" by code_simp
  show ?thesis
    using root_male_answer_prompt[of "\<lambda>t tags. textOf t" "\<lambda>x. ''1e+21''" "''sel-1''" "''male''"
        "Some ''What is the subject?''"]
    by (simp add: m t)
qed

text \<open>
  Claim C3, as stated, fails: the assembler has no special case for answers of the root
  node, and it lower-cases a label only when it appends something to it.
\<close>

theorem root_male_answer_not_male:
  "map_sum id prompt (assemblePrompt (\<lambda>t tags. textOf t) (\<lambda>x. ''1e+21'')
     [\<lparr> sa_id = ''sel-1'', sa_nodeId = ''root'', sa_answerId = ''male'', sa_label = ''Male'',
        sa_questionText = None \<rparr>] [] [] []) = Inr ''Male'' \<and>
   map_sum id prompt (assemblePrompt (\<lambda>t tags. textOf t) (\<lambda>x. ''1e+21'')
     [\<lparr> sa_id = ''sel-1'', sa_nodeId = ''root'', sa_answerId = ''male'', sa_label = ''Male'',
        sa_questionText = Some ''Who is in the picture?'' \<rparr>] [] [] []) = Inr ''Male'' \<and>
   map_sum id prompt (assemblePrompt (\<lambda>t tags. textOf t) (\<lambda>x. ''1e+21'')
     [\<lparr> sa_id = ''sel-1'', sa_nodeId = ''root'', sa_answerId = ''male'', sa_label = ''Male'',
        sa_questionText = Some ''What is the subject?'' \<rparr>] [] [] []) = Inr ''male subject''"
proof -
  have m: "matchSubject (toLowerCase ''What is the subject?'') = Some ''subject''" by code_simp
  have n: "matchSubject (toLowerCase ''Who is in the picture?'') = None" by code_simp
  have t: "trim ''subject'' = ''subject''" by code_simp
  show ?thesis
    by (simp add: assemblePrompt_def promptParts_def customPromptElements_def
        answerPart_def expand_Male lower_Male ABSTRACT_ANSWERS_def Let_def m n t)
qed

section \<open>Removing a selection\<close>

lemma removal_fold:
  "foldl (\<lambda>m e. if P (snd e) then mapDelete (fst e) m else m) m0 es =
     filter (\<lambda>x. fst x \<notin> fst ` {e \<in> set es. P (snd e)}) m0"
proof (induction es arbitrary: m0)
  case Nil
  then show ?case by simp
next
  case (Cons e es)
  show ?case
  proof (cases "P (snd e)")
    case True
    have "{x \<in> set (e # es). P (snd x)} = insert e {x \<in> set es. P (snd x)}"
      using True by auto
    then show ?thesis
      using True by (simp add: Cons.IH mapDelete_def conj_commute)
  next
    case False
    have "{x \<in> set (e # es). P (snd x)} = {x \<in> set es. P (snd x)}"
      using False by auto
    then show ?thesis using False by (simp add: Cons.IH)
  qed
qed

text \<open>In a map no key occurs twice; then the entries deleted are the entries bound.\<close>

lemma removal_fold_distinct:
  assumes "distinct (map fst m0)"
  shows "foldl (\<lambda>m e. if P (snd e) then mapDelete (fst e) m else m) m0 m0 =
           filter (\<lambda>x. \<not> P (snd x)) m0"
proof -
  have "\<And>x. x \<in> set m0 \<Longrightarrow> (fst x \<notin> fst ` {e \<in> set m0. P (snd e)}) = (\<not> P (snd x))"
  proof -
    fix x assume x: "x \<in> set m0"
    show "(fst x \<notin> fst ` {e \<in> set m0. P (snd e)}) = (\<not> P (snd x))"
    proof (cases "P (snd x)")
      case True
      then show ?thesis using x by force
    next
      case False
      have "fst x \<notin> fst ` {e \<in> set m0. P (snd e)}"
      proof
        assume "fst x \<in> fst ` {e \<in> set m0. P (snd e)}"
        then obtain e where e: "e \<in> set m0" "P (snd e)" "fst e = fst x" by auto
        have "(fst x, snd e) = e" using e(3) by (metis prod.collapse)
        then have "(fst x, snd e) \<in> set m0" "(fst x, snd x) \<in> set m0"
          using e(1) x by simp_all
        then have "snd e = snd x" using assms eq_key_imp_eq_value by fastforce
        with e(2) False show False by simp
      qed
      then show ?thesis using False by simp
    qed
  qed
  then show ?thesis
    using removal_fold[of P m0 m0] by (simp cong: filter_cong)
qed

lemma mapSet_keys: "set (map fst (mapSet k v m)) = insert k (set (map fst m))"
  by (induction m) auto

lemma mapSet_distinct: "distinct (map fst m) \<Longrightarrow> distinct (map fst (mapSet k v m))"
proof (induction m)
  case Nil
  then show ?case by simp
next
  case (Cons e m)
  then show ?case using mapSet_keys[of k v m] by (auto simp: image_iff)
qed

text \<open>In every state that a session reaches, no key occurs twice in the weight map.\<close>

lemma commitWeight_distinct:
  "distinct (map fst m) \<Longrightarrow> distinct (map fst (commitWeight s fid flabel rnd i wa m))"
  by (simp add: commitWeight_def Let_def mapSet_distinct)

lemma commitWeights_distinct:
  "distinct (map fst m) \<Longrightarrow> distinct (map fst (commitWeights s fid flabel rnd i was m))"
  by (induction was arbitrary: m i) (simp_all add: commitWeight_distinct)

lemma commitIntensity_distinct:
  "distinct (map fst (weightValues s)) \<Longrightarrow>
   distinct (map fst (commitIntensity s committedAnswerId answerLabel))"
  by (simp add: commitIntensity_def Let_def mapSet_distinct split: option.splits)

lemma weightValues_clearTemp [simp]: "weightValues (clearTemp n s) = weightValues s"
  by (simp add: clearTemp_def)

lemma perform_distinct:
  assumes "distinct (map fst (weightValues s))"
  shows "distinct (map fst (weightValues (perform nm s op)))"
proof (cases op)
  case (SelectTempAnswer a)
  then show ?thesis using assms by (simp add: selectTempAnswer_def split: option.splits)
next
  case (SelectTempRefinement a)
  then show ?thesis using assms by (simp add: selectTempRefinement_def split: option.splits)
next
  case (CommitCurrentSelections a r rnd)
  then show ?thesis
    using assms commitIntensity_distinct[OF assms]
    by (simp add: commitCurrentSelections_def Let_def commitWeights_distinct
          split: option.splits)
next
  case (RemoveSelection i)
  have "weightValues (removeSelection i s) =
          filter (\<lambda>x. fst x \<notin> fst ` {e \<in> set (weightValues s).
                                        wv_associatedAnswerId (snd e) = Some i}) (weightValues s)"
    unfolding removeSelection_def
    using removal_fold[of "\<lambda>w. wv_associatedAnswerId w = Some i" "weightValues s" "weightValues s"]
    by simp
  then show ?thesis using RemoveSelection assms by (simp add: distinct_map_filter)
next
  case GoToNext
  then show ?thesis using assms by (simp add: goToNext_def moveTo_def split: option.splits)
next
  case SkipToNext
  then show ?thesis using assms by (simp add: skipToNext_def moveTo_def split: option.splits)
next
  case Previous
  then show ?thesis using assms by (simp add: previous_def Let_def)
next
  case (JumpTo n)
  then show ?thesis using assms by (simp add: jumpTo_def)
next
  case (JumpToCategory n)
  then show ?thesis using assms by (simp add: jumpToCategory_def)
next
  case (SetWeight a v t tags)
  then show ?thesis
    using assms by (simp add: setWeight_def Let_def mapSet_distinct split: option.splits)
next
  case Reset
  then show ?thesis by (simp add: reset_def initialState_def)
qed (use assms in \<open>simp_all add: setIntensity_def setSliderEnabled_def
      addCustomElement_def removeCustomElement_def toggleCustomElement_def
      setCustomElementType_def\<close>)

lemma session_distinct: "distinct (map fst (weightValues (session nm ops)))"
proof -
  have "distinct (map fst (weightValues s)) \<Longrightarrow>
        distinct (map fst (weightValues (foldl (perform nm) s ops)))" for s
    by (induction ops arbitrary: s) (simp_all add: perform_distinct)
  then show ?thesis unfolding session_def by (simp add: initialState_def)
qed

text \<open>
  Claim C6. After \<open>removeSelection\<close> no committed answer or refinement has the removed
  identifier and no weight is bound to it; when the identifier matches no answer, no
  refinement and no weight, the state is unchanged. More than that: the answers and the
  refinements with other identifiers stay, in their order; when no key occurs twice in
  the weight map, exactly the weights bound to the identifier go and the others stay, in
  their order, which is so in every state that a session reaches; and nothing else of the
  state changes.
\<close>

theorem removeSelection_cascade:
  "(\<forall>a \<in> set (committedAnswers (removeSelection selectionId s)). sa_id a \<noteq> selectionId) \<and>
   (\<forall>r \<in> set (committedRefinements (removeSelection selectionId s)). sr_id r \<noteq> selectionId) \<and>
   (\<forall>e \<in> set (weightValues (removeSelection selectionId s)).
      wv_associatedAnswerId (snd e) \<noteq> Some selectionId) \<and>
   ((\<forall>a \<in> set (committedAnswers s). sa_id a \<noteq> selectionId) \<and>
    (\<forall>r \<in> set (committedRefinements s). sr_id r \<noteq> selectionId) \<and>
    (\<forall>e \<in> set (weightValues s). wv_associatedAnswerId (snd e) \<noteq> Some selectionId)
    \<longrightarrow> removeSelection selectionId s = s) \<and>
   committedAnswers (removeSelection selectionId s) =
     filter (\<lambda>a. sa_id a \<noteq> selectionId) (committedAnswers s) \<and>
   committedRefinements (removeSelection selectionId s) =
     filter (\<lambda>r. sr_id r \<noteq> selectionId) (committedRefinements s) \<and>
   (distinct (map fst (weightValues s)) \<longrightarrow>
      weightValues (removeSelection selectionId s) =
        filter (\<lambda>e. wv_associatedAnswerId (snd e) \<noteq> Some selectionId) (weightValues s)) \<and>
   weightValues (removeSelection selectionId (session nm ops)) =
     filter (\<lambda>e. wv_associatedAnswerId (snd e) \<noteq> Some selectionId)
       (weightValues (session nm ops)) \<and>
   (removeSelection selectionId s)
      \<lparr> committedAnswers := committedAnswers s, committedRefinements := committedRefinements s,
        weightValues := weightValues s \<rparr> = s"
proof -
  let ?P = "\<lambda>w. wv_associatedAnswerId w = Some selectionId"
  let ?m = "foldl (\<lambda>m e. if ?P (snd e) then mapDelete (fst e) m else m)
              (weightValues s) (weightValues s)"
  have wv: "weightValues (removeSelection selectionId s) = ?m"
    by (simp add: removeSelection_def)
  have mm: "?m = filter (\<lambda>x. fst x \<notin> fst ` {e \<in> set (weightValues s). ?P (snd e)})
                  (weightValues s)"
    by (rule removal_fold)
  have c1: "\<forall>a \<in> set (committedAnswers (removeSelection selectionId s)). sa_id a \<noteq> selectionId"
    by (simp add: removeSelection_def)
  have c2: "\<forall>r \<in> set (committedRefinements (removeSelection selectionId s)).
              sr_id r \<noteq> selectionId"
    by (simp add: removeSelection_def)
  have c3: "\<forall>e \<in> set (weightValues (removeSelection selectionId s)).
              wv_associatedAnswerId (snd e) \<noteq> Some selectionId"
    unfolding wv mm by force
  have c4: "removeSelection selectionId s = s"
    if h: "(\<forall>a \<in> set (committedAnswers s). sa_id a \<noteq> selectionId) \<and>
       (\<forall>r \<in> set (committedRefinements s). sr_id r \<noteq> selectionId) \<and>
       (\<forall>e \<in> set (weightValues s). wv_associatedAnswerId (snd e) \<noteq> Some selectionId)"
  proof -
    have "filter (\<lambda>a. sa_id a \<noteq> selectionId) (committedAnswers s) = committedAnswers s"
      using h by simp
    moreover have "filter (\<lambda>r. sr_id r \<noteq> selectionId) (committedRefinements s)
                     = committedRefinements s"
      using h by simp
    moreover have e: "{e \<in> set (weightValues s). ?P (snd e)} = {}" using h by auto
    have "?m = weightValues s" unfolding mm e by simp
    ultimately show ?thesis by (simp add: removeSelection_def)
  qed
  have c5: "committedAnswers (removeSelection selectionId s) =
              filter (\<lambda>a. sa_id a \<noteq> selectionId) (committedAnswers s)"
    and c6: "committedRefinements (removeSelection selectionId s) =
              filter (\<lambda>r. sr_id r \<noteq> selectionId) (committedRefinements s)"
    by (simp_all add: removeSelection_def)
  have c7: "weightValues (removeSelection selectionId s) =
        filter (\<lambda>e. wv_associatedAnswerId (snd e) \<noteq> Some selectionId) (weightValues s)"
    if "distinct (map fst (weightValues s))"
    unfolding wv by (rule removal_fold_distinct[OF that, of ?P, simplified])
  have c8: "(removeSelection selectionId s)
      \<lparr> committedAnswers := committedAnswers s, committedRefinements := committedRefinements s,
        weightValues := weightValues s \<rparr> = s"
    by (simp add: removeSelection_def)
  have c9: "weightValues (removeSelection selectionId (session nm ops)) =
     filter (\<lambda>e. wv_associatedAnswerId (snd e) \<noteq> Some selectionId)
       (weightValues (session nm ops))"
    using removal_fold_distinct[OF session_distinct, of ?P nm ops]
    by (simp add: removeSelection_def)
  from c1 c2 c3 c4 c5 c6 c7 c9 c8 show ?thesis by blast
qed

lemma removal_session:
  "map sa_id (committedAnswers (session exampleGraph
     [SelectTempAnswer ''male'', CommitCurrentSelections ''a1'' ''r1'' (\<lambda>i. ''w''), GoToNext,
      SelectTempAnswer ''slim'', SetSliderEnabled ''intensity'' True,
      SetWeight ''glow'' (Finite (1/2)) ''glow'' (Some [''eyes'']),
      CommitCurrentSelections ''a2'' ''r2'' (\<lambda>i. ''w'')])) = [''sel-a1'', ''sel-a2'']"
  "committedRefinements (session exampleGraph
     [SelectTempAnswer ''male'', CommitCurrentSelections ''a1'' ''r1'' (\<lambda>i. ''w''), GoToNext,
      SelectTempAnswer ''slim'', SetSliderEnabled ''intensity'' True,
      SetWeight ''glow'' (Finite (1/2)) ''glow'' (Some [''eyes'']),
      CommitCurrentSelections ''a2'' ''r2'' (\<lambda>i. ''w'')]) = []"
  "map (\<lambda>e. (fst e, wv_associatedAnswerId (snd e))) (weightValues (session exampleGraph
     [SelectTempAnswer ''male'', CommitCurrentSelections ''a1'' ''r1'' (\<lambda>i. ''w''), GoToNext,
      SelectTempAnswer ''slim'', SetSliderEnabled ''intensity'' True,
      SetWeight ''glow'' (Finite (1/2)) ''glow'' (Some [''eyes'']),
      CommitCurrentSelections ''a2'' ''r2'' (\<lambda>i. ''w'')]))
     = [(''glow'', None), (''weight-sel-a2-intensity'', Some ''sel-a2'')]"
  by code_simp+

theorem removeSelection_cascade_witness:
  "map sa_id (committedAnswers (removeSelection ''sel-a2'' (session exampleGraph
     [SelectTempAnswer ''male'', CommitCurrentSelections ''a1'' ''r1'' (\<lambda>i. ''w''), GoToNext,
      SelectTempAnswer ''slim'', SetSliderEnabled ''intensity'' True,
      SetWeight ''glow'' (Finite (1/2)) ''glow'' (Some [''eyes'']),
      CommitCurrentSelections ''a2'' ''r2'' (\<lambda>i. ''w'')]))) = [''sel-a1''] \<and>
   map (\<lambda>e. (fst e, wv_associatedAnswerId (snd e)))
     (weightValues (removeSelection ''sel-a2'' (session exampleGraph
     [SelectTempAnswer ''male'', CommitCurrentSelections ''a1'' ''r1'' (\<lambda>i. ''w''), GoToNext,
      SelectTempAnswer ''slim'', SetSliderEnabled ''intensity'' True,
      SetWeight ''glow'' (Finite (1/2)) ''glow'' (Some [''eyes'']),
      CommitCurrentSelections ''a2'' ''r2'' (\<lambda>i. ''w'')]))) = [(''glow'', None)] \<and>
   removeSelection ''sel-zz'' (session exampleGraph
     [SelectTempAnswer ''male'', CommitCurrentSelections ''a1'' ''r1'' (\<lambda>i. ''w''), GoToNext,
      SelectTempAnswer ''slim'', SetSliderEnabled ''intensity'' True,
      SetWeight ''glow'' (Finite (1/2)) ''glow'' (Some [''eyes'']),
      CommitCurrentSelections ''a2'' ''r2'' (\<lambda>i. ''w'')])
   = session exampleGraph
     [SelectTempAnswer ''male'', CommitCurrentSelections ''a1'' ''r1'' (\<lambda>i. ''w''), GoToNext,
      SelectTempAnswer ''slim'', SetSliderEnabled ''intensity'' True,
      SetWeight ''glow'' (Finite (1/2)) ''glow'' (Some [''eyes'']),
      CommitCurrentSelections ''a2'' ''r2'' (\<lambda>i. ''w'')]"
proof -
  let ?s = "session exampleGraph
     [SelectTempAnswer ''male'', CommitCurrentSelections ''a1'' ''r1'' (\<lambda>i. ''w''), GoToNext,
      SelectTempAnswer ''slim'', SetSliderEnabled ''intensity'' True,
      SetWeight ''glow'' (Finite (1/2)) ''glow'' (Some [''eyes'']),
      CommitCurrentSelections ''a2'' ''r2'' (\<lambda>i. ''w'')]"
  let ?f = "\<lambda>e::string \<times> WeightValue. (fst e, wv_associatedAnswerId (snd e))"
  have ids: "map sa_id (committedAnswers ?s) = [''sel-a1'', ''sel-a2'']"
    and refs: "committedRefinements ?s = []"
    and ws: "map ?f (weightValues ?s) = [(''glow'', None), (''weight-sel-a2-intensity'', Some ''sel-a2'')]"
    by (rule removal_session)+
  have "map fst (map ?f (weightValues ?s)) = [''glow'', ''weight-sel-a2-intensity'']"
    unfolding ws by simp
  then have keys: "map fst (weightValues ?s) = [''glow'', ''weight-sel-a2-intensity'']"
    by (simp add: comp_def)
  then have d: "distinct (map fst (weightValues ?s))" by simp
  note r = removeSelection_cascade[of "''sel-a2''" ?s]
  note r5 = r[THEN conjunct2, THEN conjunct2, THEN conjunct2, THEN conjunct2, THEN conjunct1]
  note r7 = r[THEN conjunct2, THEN conjunct2, THEN conjunct2, THEN conjunct2, THEN conjunct2,
              THEN conjunct2, THEN conjunct1, rule_format, OF d]
  have a: "map sa_id (committedAnswers (removeSelection ''sel-a2'' ?s)) =
             filter (\<lambda>i. i \<noteq> ''sel-a2'') (map sa_id (committedAnswers ?s))"
    unfolding r5 by (simp add: filter_map comp_def)
  have w: "map ?f (weightValues (removeSelection ''sel-a2'' ?s)) =
             filter (\<lambda>p. snd p \<noteq> Some ''sel-a2'') (map ?f (weightValues ?s))"
    unfolding r7 by (simp add: filter_map comp_def)
  have n1: "\<forall>a \<in> set (committedAnswers ?s). sa_id a \<noteq> ''sel-zz''"
  proof
    fix a assume "a \<in> set (committedAnswers ?s)"
    then have "sa_id a \<in> set (map sa_id (committedAnswers ?s))" by simp
    then show "sa_id a \<noteq> ''sel-zz''" unfolding ids by auto
  qed
  have n3: "\<forall>e \<in> set (weightValues ?s). wv_associatedAnswerId (snd e) \<noteq> Some ''sel-zz''"
  proof
    fix e assume "e \<in> set (weightValues ?s)"
    then have "?f e \<in> set (map ?f (weightValues ?s))" by simp
    then show "wv_associatedAnswerId (snd e) \<noteq> Some ''sel-zz''" unfolding ws by auto
  qed
  have n2: "\<forall>r \<in> set (committedRefinements ?s). sr_id r \<noteq> ''sel-zz''"
    unfolding refs by simp
  have z: "removeSelection ''sel-zz'' ?s = ?s"
    by (rule removeSelection_cascade[of "''sel-zz''" ?s, THEN conjunct2, THEN conjunct2,
          THEN conjunct2, THEN conjunct1, rule_format]) (intro conjI n1 n2 n3)
  have a': "map sa_id (committedAnswers (removeSelection ''sel-a2'' ?s)) = [''sel-a1'']"
    unfolding a ids by simp
  have w': "map ?f (weightValues (removeSelection ''sel-a2'' ?s)) = [(''glow'', None)]"
    unfolding w ws by simp
  from a' w' z show ?thesis by (intro conjI)
qed

section \<open>Category jump\<close>

text \<open>
  Claim C7, as amended. The category jump has the same guard as the plain jump: for a
  node identifier that the node map does not hold it changes nothing. For an identifier
  the map holds it makes that node current and appends it to the history unless the
  history holds it already. In both cases the temporary answer, refinement and intensity
  maps are the same after the jump as before it, and so is everything but the current
  node and the history.
\<close>

theorem jumpToCategory_effect:
  "(nm nodeId = None \<longrightarrow> jumpToCategory nm nodeId s = s \<and> jumpTo nm nodeId s = s) \<and>
   (nm nodeId \<noteq> None \<longrightarrow>
      currentNodeId (jumpToCategory nm nodeId s) = nodeId \<and>
      history (jumpToCategory nm nodeId s) =
        (if nodeId \<in> set (history s) then history s else history s @ [nodeId])) \<and>
   tempAnswers (jumpToCategory nm nodeId s) = tempAnswers s \<and>
   tempRefinements (jumpToCategory nm nodeId s) = tempRefinements s \<and>
   tempIntensities (jumpToCategory nm nodeId s) = tempIntensities s \<and>
   (jumpToCategory nm nodeId s)\<lparr> currentNodeId := currentNodeId s, history := history s \<rparr> = s"
  by (simp add: jumpToCategory_def jumpTo_def)

lemma exampleGraph_lookup:
  "exampleGraph ''ghost'' = None"
  "exampleGraph ''hair-style'' \<noteq> None"
  by (simp_all add: exampleGraph_def)

lemma selecting_session:
  "history (session exampleGraph [SelectTempAnswer ''male'', SelectTempRefinement ''male''])
     = [''root'']"
  "map_option sa_answerId
     (tempAnswers (session exampleGraph [SelectTempAnswer ''male'', SelectTempRefinement ''male''])
        ''root'') = Some ''male''"
  "map_option sr_answerId
     (tempRefinements (session exampleGraph [SelectTempAnswer ''male'', SelectTempRefinement ''male''])
        ''root'') = Some ''male''"
  by code_simp+

lemma selecting_session_intensity:
  "tempIntensities (session exampleGraph [SelectTempAnswer ''male'', SelectTempRefinement ''male''])
     ''root'' = Some (Finite 1)"
  by (simp add: session_def selectTempAnswer_def selectTempRefinement_def currentNode_def
        initialState_def exampleGraph_def)

theorem jumpToCategory_effect_witness:
  "currentNodeId (jumpToCategory exampleGraph ''hair-style''
      (session exampleGraph [SelectTempAnswer ''male'', SelectTempRefinement ''male'']))
     = ''hair-style'' \<and>
   history (jumpToCategory exampleGraph ''hair-style''
      (session exampleGraph [SelectTempAnswer ''male'', SelectTempRefinement ''male'']))
     = [''root'', ''hair-style''] \<and>
   map_option sa_answerId (tempAnswers (jumpToCategory exampleGraph ''hair-style''
      (session exampleGraph [SelectTempAnswer ''male'', SelectTempRefinement ''male'']))
      ''root'') = Some ''male'' \<and>
   map_option sr_answerId (tempRefinements (jumpToCategory exampleGraph ''hair-style''
      (session exampleGraph [SelectTempAnswer ''male'', SelectTempRefinement ''male'']))
      ''root'') = Some ''male'' \<and>
   tempIntensities (jumpToCategory exampleGraph ''hair-style''
      (session exampleGraph [SelectTempAnswer ''male'', SelectTempRefinement ''male'']))
      ''root'' = Some (Finite 1) \<and>
   jumpToCategory exampleGraph ''ghost''
      (session exampleGraph [SelectTempAnswer ''male'', SelectTempRefinement ''male''])
     = session exampleGraph [SelectTempAnswer ''male'', SelectTempRefinement ''male'']"
  using jumpToCategory_effect[of exampleGraph "''ghost''"
      "session exampleGraph [SelectTempAnswer ''male'', SelectTempRefinement ''male'']"]
    jumpToCategory_effect[of exampleGraph "''hair-style''"
      "session exampleGraph [SelectTempAnswer ''male'', SelectTempRefinement ''male'']"]
  by (simp add: exampleGraph_lookup selecting_session selecting_session_intensity)

text \<open>
  Claim C7, as stated, fails: a target that the plain jump rejects is rejected by the
  category jump too, and the current node stays where it was.
\<close>

theorem jumpToCategory_keeps_guard:
  "jumpTo exampleGraph ''ghost'' initialState = initialState \<and>
   currentNodeId (jumpToCategory exampleGraph ''ghost'' initialState) = ''root''"
  by (simp add: jumpToCategory_def jumpTo_def exampleGraph_lookup initialState_def)

section \<open>History discipline\<close>

lemma history_clearTemp [simp]:
  "history (clearTemp n s) = history s" "currentNodeId (clearTemp n s) = currentNodeId s"
  by (simp_all add: clearTemp_def)

lemma moveTo_history [simp]:
  "history (moveTo x s) = history s @ [x]" "currentNodeId (moveTo x s) = x"
  by (simp_all add: moveTo_def)

lemma goToNext_success:
  assumes "nextTarget nm s = Some x"
  shows "history (goToNext nm s) = history s @ [x]" and "currentNodeId (goToNext nm s) = x"
    and "atTop (goToNext nm s)"
  using assms by (simp_all add: goToNext_def atTop_def)

lemma previous_pop:
  assumes "history s = h @ [x]" "h \<noteq> []"
  shows "history (previous s) = h" and "currentNodeId (previous s) = last h"
proof -
  have "\<not> length (history s) \<le> 1" using assms by (cases h) simp_all
  then show "history (previous s) = h" and "currentNodeId (previous s) = last h"
    using assms(1) by (simp_all add: previous_def Let_def)
qed

lemma advance_then_back:
  "atTop s \<Longrightarrow> (\<forall>i<N. nextTarget nm ((goToNext nm ^^ i) s) \<noteq> None) \<Longrightarrow>
   history ((previous ^^ N) ((goToNext nm ^^ N) s)) = history s \<and>
   currentNodeId ((previous ^^ N) ((goToNext nm ^^ N) s)) = currentNodeId s"
proof (induction N arbitrary: s)
  case 0
  then show ?case by simp
next
  case (Suc N)
  from Suc.prems(2) have "nextTarget nm s \<noteq> None" by force
  then obtain x where x: "nextTarget nm s = Some x" by blast
  let ?s1 = "goToNext nm s"
  have top: "atTop ?s1" and h1: "history ?s1 = history s @ [x]"
    using goToNext_success[OF x] by simp_all
  have later: "\<forall>i<N. nextTarget nm ((goToNext nm ^^ i) ?s1) \<noteq> None"
  proof (intro allI impI)
    fix i assume "i < N"
    then have "nextTarget nm ((goToNext nm ^^ Suc i) s) \<noteq> None" using Suc.prems(2) by blast
    then show "nextTarget nm ((goToNext nm ^^ i) ?s1) \<noteq> None" by (simp add: funpow_swap1)
  qed
  let ?t = "(previous ^^ N) ((goToNext nm ^^ N) ?s1)"
  have ih: "history ?t = history s @ [x]" using Suc.IH[OF top later] h1 by simp
  have ne: "history s \<noteq> []" and l: "last (history s) = currentNodeId s"
    using Suc.prems(1) by (simp_all add: atTop_def)
  have eq: "(previous ^^ Suc N) ((goToNext nm ^^ Suc N) s) = previous ?t"
    by (simp add: funpow_swap1)
  show ?case unfolding eq using previous_pop[OF ih ne] l by simp
qed

text \<open>
  Claim C5, as amended. \<open>previous\<close> changes nothing when the history has at most one
  entry, and it never takes a history that is not empty to an empty one. From a state in
  which the last entry of the history is the current node, \<open>N\<close> successful advances
  followed by \<open>N\<close> calls of \<open>previous\<close> bring the current node (and the history) back to
  what they were before the first advance.
\<close>

theorem previous_discipline:
  "(length (history s) \<le> 1 \<longrightarrow> previous s = s) \<and>
   (1 \<le> length (history s) \<longrightarrow> 1 \<le> length (history (previous s))) \<and>
   (atTop s \<and> (\<forall>i<N. nextTarget nm ((goToNext nm ^^ i) s) \<noteq> None) \<longrightarrow>
      currentNodeId ((previous ^^ N) ((goToNext nm ^^ N) s)) = currentNodeId s \<and>
      history ((previous ^^ N) ((goToNext nm ^^ N) s)) = history s)"
proof -
  have a: "length (history s) \<le> 1 \<longrightarrow> previous s = s" by (simp add: previous_def)
  have b: "1 \<le> length (history s) \<longrightarrow> 1 \<le> length (history (previous s))"
    by (cases "length (history s) \<le> 1") (auto simp: previous_def Let_def)
  show ?thesis using a b advance_then_back[of s N nm] by blast
qed

lemma returning_session:
  "history (session exampleGraph
     [SelectTempAnswer ''male'', CommitCurrentSelections ''a1'' ''r1'' (\<lambda>i. ''w''), GoToNext,
      SelectTempAnswer ''slim'', CommitCurrentSelections ''a2'' ''r2'' (\<lambda>i. ''w''), Previous])
     = [''root'']"
  "currentNodeId (session exampleGraph
     [SelectTempAnswer ''male'', CommitCurrentSelections ''a1'' ''r1'' (\<lambda>i. ''w''), GoToNext,
      SelectTempAnswer ''slim'', CommitCurrentSelections ''a2'' ''r2'' (\<lambda>i. ''w''), Previous])
     = ''root''"
  "nextTarget exampleGraph (session exampleGraph
     [SelectTempAnswer ''male'', CommitCurrentSelections ''a1'' ''r1'' (\<lambda>i. ''w''), GoToNext,
      SelectTempAnswer ''slim'', CommitCurrentSelections ''a2'' ''r2'' (\<lambda>i. ''w''), Previous])
     = Some ''character-build''"
  "nextTarget exampleGraph (goToNext exampleGraph (session exampleGraph
     [SelectTempAnswer ''male'', CommitCurrentSelections ''a1'' ''r1'' (\<lambda>i. ''w''), GoToNext,
      SelectTempAnswer ''slim'', CommitCurrentSelections ''a2'' ''r2'' (\<lambda>i. ''w''), Previous]))
     = Some ''hair-style''"
  by code_simp+

theorem previous_discipline_witness:
  "currentNodeId ((previous ^^ 2) ((goToNext exampleGraph ^^ 2) (session exampleGraph
     [SelectTempAnswer ''male'', CommitCurrentSelections ''a1'' ''r1'' (\<lambda>i. ''w''), GoToNext,
      SelectTempAnswer ''slim'', CommitCurrentSelections ''a2'' ''r2'' (\<lambda>i. ''w''), Previous])))
     = ''root'' \<and>
   previous initialState = initialState"
proof -
  let ?s = "session exampleGraph
     [SelectTempAnswer ''male'', CommitCurrentSelections ''a1'' ''r1'' (\<lambda>i. ''w''), GoToNext,
      SelectTempAnswer ''slim'', CommitCurrentSelections ''a2'' ''r2'' (\<lambda>i. ''w''), Previous]"
  have top: "atTop ?s" by (simp add: atTop_def returning_session)
  have adv: "\<forall>i<2. nextTarget exampleGraph ((goToNext exampleGraph ^^ i) ?s) \<noteq> None"
  proof (intro allI impI)
    fix i :: nat assume "i < 2"
    then have "i = 0 \<or> i = 1" by auto
    then show "nextTarget exampleGraph ((goToNext exampleGraph ^^ i) ?s) \<noteq> None"
      by (auto simp: returning_session)
  qed
  have "length (history initialState) \<le> 1" by (simp add: initialState_def)
  then show ?thesis
    using previous_discipline[of ?s 2 exampleGraph] previous_discipline[of initialState 0 exampleGraph]
      top adv by (simp add: returning_session)
qed

text \<open>
  Claim C5, as stated, fails in a state that a session reaches: after a jump to a node
  that the history already holds, the current node is not the last entry of the history,
  and one advance followed by one \<open>previous\<close> ends at another node.
\<close>

theorem advance_back_after_jump:
  "currentNodeId (session exampleGraph
      [SelectTempAnswer ''male'', GoToNext, JumpTo ''root'', SelectTempAnswer ''male'']) = ''root'' \<and>
   nextTarget exampleGraph (session exampleGraph
      [SelectTempAnswer ''male'', GoToNext, JumpTo ''root'', SelectTempAnswer ''male''])
     = Some ''character-build'' \<and>
   currentNodeId (previous (goToNext exampleGraph (session exampleGraph
      [SelectTempAnswer ''male'', GoToNext, JumpTo ''root'', SelectTempAnswer ''male''])))
     = ''character-build''"
  by code_simp

section \<open>The history in every reachable state\<close>

text \<open>How one operation may change the history: not at all, by one entry appended, by
  the last entry dropped while more than one remains, or back to the root alone.\<close>

lemma perform_history:
  "history (perform nm s op) = history s \<or>
   (\<exists>x. history (perform nm s op) = history s @ [x]) \<or>
   (1 < length (history s) \<and> history (perform nm s op) = butlast (history s)) \<or>
   history (perform nm s op) = [''root'']"
proof (cases op)
  case (SelectTempAnswer a)
  then show ?thesis by (simp add: selectTempAnswer_def split: option.splits)
next
  case (SelectTempRefinement a)
  then show ?thesis by (simp add: selectTempRefinement_def split: option.splits)
next
  case (CommitCurrentSelections a r rnd)
  then show ?thesis by (simp add: commitCurrentSelections_def Let_def)
next
  case GoToNext
  then show ?thesis by (simp add: goToNext_def split: option.splits)
next
  case SkipToNext
  then show ?thesis by (simp add: skipToNext_def split: option.splits)
next
  case Previous
  then show ?thesis by (simp add: previous_def Let_def)
next
  case (JumpTo n)
  then show ?thesis by (simp add: jumpTo_def)
next
  case (JumpToCategory n)
  then show ?thesis by (simp add: jumpToCategory_def)
next
  case (SetWeight a v t tags)
  then show ?thesis by (simp add: setWeight_def Let_def)
next
  case Reset
  then show ?thesis by (simp add: reset_def initialState_def)
qed (simp_all add: setIntensity_def removeSelection_def setSliderEnabled_def
      addCustomElement_def removeCustomElement_def toggleCustomElement_def
      setCustomElementType_def)

lemma perform_rooted:
  assumes "history s \<noteq> []" "hd (history s) = ''root''"
  shows "history (perform nm s op) \<noteq> [] \<and> hd (history (perform nm s op)) = ''root''"
proof -
  have "1 < length (history s) \<Longrightarrow>
        butlast (history s) \<noteq> [] \<and> hd (butlast (history s)) = hd (history s)"
    by (cases "history s" rule: rev_cases) (auto simp: hd_append)
  then show ?thesis using perform_history[of nm s op] assms by (auto simp: hd_append)
qed

lemma foldl_perform_rooted:
  "history s \<noteq> [] \<Longrightarrow> hd (history s) = ''root'' \<Longrightarrow>
   history (foldl (perform nm) s ops) \<noteq> [] \<and> hd (history (foldl (perform nm) s ops)) = ''root''"
  by (induction ops arbitrary: s) (simp_all add: perform_rooted)

text \<open>
  Claim C10. In the state after any sequence of operations from the start of a session,
  the history is not empty and its first entry is \<open>root\<close>; every operation leaves the
  history as it is, appends one entry, drops the last entry while more than one remains,
  or (reset) sets it to the root alone.
\<close>

theorem history_rooted:
  "history (session nm ops) \<noteq> [] \<and> hd (history (session nm ops)) = ''root'' \<and>
   (history (perform nm s op) = history s \<or>
    (\<exists>x. history (perform nm s op) = history s @ [x]) \<or>
    (1 < length (history s) \<and> history (perform nm s op) = butlast (history s)) \<or>
    history (perform nm s op) = [''root'']) \<and>
   history (perform nm s Reset) = [''root'']"
proof -
  have "history initialState \<noteq> []" "hd (history initialState) = ''root''"
    by (simp_all add: initialState_def)
  then have "history (session nm ops) \<noteq> [] \<and> hd (history (session nm ops)) = ''root''"
    unfolding session_def by (rule foldl_perform_rooted)
  moreover have "history (perform nm s Reset) = [''root'']"
    by (simp add: reset_def initialState_def)
  ultimately show ?thesis using perform_history[of nm s op] by blast
qed

theorem history_rooted_witness:
  "history (session exampleGraph
      [SelectTempAnswer ''male'', GoToNext, JumpTo ''eye-detail'', Previous, Previous, Previous])
     \<noteq> [] \<and>
   hd (history (session exampleGraph
      [SelectTempAnswer ''male'', GoToNext, JumpTo ''eye-detail'', Previous, Previous, Previous]))
     = ''root''"
  using history_rooted[of exampleGraph
      "[SelectTempAnswer ''male'', GoToNext, JumpTo ''eye-detail'', Previous, Previous, Previous]"
      initialState Reset]
  by blast

section \<open>Rendering with two fraction digits\<close>

lemma digitChar_digit: "d < 10 \<Longrightarrow> isDigit (digitChar d)"
proof -
  assume "d < 10"
  then have "d < length ''0123456789''" by simp
  then show ?thesis unfolding isDigit_def digitChar_def by (rule nth_mem)
qed

lemma natDigits_digits: "natDigits n \<noteq> [] \<and> list_all isDigit (natDigits n)"
proof (induction n rule: natDigits.induct)
  case (1 n)
  show ?case
  proof (cases "n < 10")
    case True
    then show ?thesis by (subst (1 2) natDigits.simps) (simp add: digitChar_digit)
  next
    case False
    then show ?thesis
      using "1.IH" by (subst (1 2) natDigits.simps) (simp add: digitChar_digit)
  qed
qed

lemma two_last:
  assumes "3 \<le> length m" "list_all isDigit m"
  shows "\<exists>ip d1 d2. take (length m - 2) m @ ''.'' @ drop (length m - 2) m = ip @ ''.'' @ [d1, d2] \<and>
           ip \<noteq> [] \<and> list_all isDigit ip \<and> isDigit d1 \<and> isDigit d2"
proof -
  let ?b = "drop (length m - 2) m"
  have "length ?b = 2" using assms(1) by simp
  then obtain d1 d2 where b: "?b = [d1, d2]"
    by (cases ?b; cases "tl ?b") auto
  have "set ?b \<subseteq> set m" by (rule set_drop_subset)
  then have "isDigit d1" "isDigit d2" using assms(2) b by (auto simp: list_all_iff)
  moreover have "take (length m - 2) m \<noteq> []" using assms(1) by auto
  moreover have "list_all isDigit (take (length m - 2) m)"
    using assms(2) set_take_subset[of "length m - 2" m] by (auto simp: list_all_iff)
  ultimately show ?thesis using b by auto
qed

lemma toFixed2_twoDecimals:
  assumes "\<bar>x\<bar> < 10 ^ 21"
  shows "twoDecimals (toFixed2 numberToString (Finite x))"
proof -
  define n where "n = nat \<lfloor>\<bar>x\<bar> * 100 + 1 / 2\<rfloor>"
  define m where "m = natDigits n"
  define m' where "m' = (if length m \<le> 2 then replicate (3 - length m) (CHR ''0'') @ m else m)"
  have m: "m \<noteq> []" "list_all isDigit m" using natDigits_digits[of n] by (simp_all add: m_def)
  have zero: "isDigit (CHR ''0'')" by (simp add: isDigit_def)
  have len: "3 \<le> length m'" by (auto simp: m'_def)
  have dig: "list_all isDigit m'" using m(2) zero by (auto simp: m'_def list_all_iff)
  from two_last[OF len dig] obtain ip d1 d2 where
    e: "take (length m' - 2) m' @ ''.'' @ drop (length m' - 2) m' = ip @ ''.'' @ [d1, d2]"
    and p: "ip \<noteq> []" "list_all isDigit ip" "isDigit d1" "isDigit d2"
    by blast
  have "toFixed2 numberToString (Finite x) =
          (if x < 0 then ''-'' else []) @ take (length m' - 2) m' @ ''.'' @ drop (length m' - 2) m'"
    using assms by (simp add: toFixed2_def Let_def n_def m_def m'_def)
  then have "toFixed2 numberToString (Finite x) = (if x < 0 then ''-'' else []) @ ip @ ''.'' @ [d1, d2]"
    using e by simp
  then show ?thesis unfolding twoDecimals_def using p by (intro exI[of _ "if x < 0 then ''-'' else []"] exI[of _ ip] exI[of _ d1] exI[of _ d2]) simp
qed

section \<open>The loop over the weights\<close>

text \<open>A rule of the table's own, applied to a primitive string, returns a primitive
  string.\<close>

lemma plain_rule_string:
  assumes "NORMALIZATION_RULES tag = Some f" "plainTag tag"
  shows "\<exists>r. f (JsString s) = Inr (JsString r)"
proof -
  have own: "f \<in> {rule_hair, rule_eyes, rule_face, rule_environment, rule_lighting, rule_camera,
      rule_color, rule_materials, rule_clothing, rule_fabric, rule_armor, rule_magic,
      rule_expression, rule_pose}"
    using assms by (auto simp: NORMALIZATION_RULES_def plainTag_def split: if_splits)
  have p: "\<And>k ph. \<exists>r. prefixUnless k ph (JsString s) = Inr (JsString r)"
    by (simp add: prefixUnless_def)
  have "\<exists>r. rule_hair (JsString s) = Inr (JsString r)" by (simp add: rule_hair_def)
  moreover have "\<exists>r. rule_environment (JsString s) = Inr (JsString r)"
    using p by (simp add: rule_environment_def)
  moreover have "\<exists>r. rule_materials (JsString s) = Inr (JsString r)"
    by (simp add: rule_materials_def)
  ultimately show ?thesis
    using own p
    by (auto simp: rule_eyes_def rule_face_def rule_lighting_def rule_camera_def rule_color_def
          rule_clothing_def rule_fabric_def rule_armor_def rule_magic_def rule_expression_def
          rule_pose_def)
qed

lemma applyRules_plain:
  "list_all plainTag tags \<Longrightarrow> \<exists>r. applyRules (JsString s) tags = Inr (JsString r)"
proof (induction tags arbitrary: s)
  case Nil
  then show ?case by simp
next
  case (Cons tag tags)
  then have pt: "plainTag tag" and rest: "list_all plainTag tags" by simp_all
  show ?case
  proof (cases "NORMALIZATION_RULES tag")
    case None
    then show ?thesis using Cons.IH[OF rest] by simp
  next
    case (Some f)
    from plain_rule_string[OF Some pt, of s] obtain r where "f (JsString s) = Inr (JsString r)"
      by blast
    then show ?thesis using Some Cons.IH[OF rest, of r] by simp
  qed
qed

lemma normalize_plain:
  "list_all plainTag tags \<Longrightarrow> \<exists>r. normalizeTemplate t tags = Inr (JsString r)"
  unfolding normalizeTemplate_def by (rule applyRules_plain)

lemma weightStep_key:
  assumes "list_all plainTag (tagsOrEmpty (wv_tags w))"
  shows "weightStep san big answers (parts, seen) w =
    Inr (case dedupKey san answers w of
           None \<Rightarrow> (parts, seen)
         | Some k \<Rightarrow>
             if k \<in> seen then (parts, seen)
             else (parts @ [fragment big k (wv_value w)], insert k seen))"
proof (cases "wv_attrId w = ''intensity''")
  case True
  then show ?thesis
    by (cases "wv_answerLabel w") (simp_all add: weightStep_def dedupKey_def Let_def)
next
  case False
  from normalize_plain[OF assms, of "contextualTemplate w"] obtain r where
    "normalizeTemplate (contextualTemplate w) (tagsOrEmpty (wv_tags w)) = Inr (JsString r)"
    by blast
  then show ?thesis using False by (simp add: weightStep_def dedupKey_def Let_def)
qed

text \<open>A weight that computes no text leaves the state of the loop as it is; for an
  intensity weight this needs nothing of its tags.\<close>

lemma intensity_step:
  assumes "wv_attrId w = ''intensity''"
  shows "weightStep san big answers (parts, seen) w =
    Inr (case dedupKey san answers w of
           None \<Rightarrow> (parts, seen)
         | Some k \<Rightarrow>
             if k \<in> seen then (parts, seen)
             else (parts @ [fragment big k (wv_value w)], insert k seen))"
  using assms by (cases "wv_answerLabel w") (simp_all add: weightStep_def dedupKey_def Let_def)

lemma weightLoop_append:
  "weightLoop san big answers st (ws1 @ ws2) =
     (case weightLoop san big answers st ws1 of
        Inl e \<Rightarrow> Inl e
      | Inr st' \<Rightarrow> weightLoop san big answers st' ws2)"
  by (induction ws1 arbitrary: st) (simp_all split: sum.splits)

lemma weightLoop_skip:
  assumes "\<And>st. weightStep san big answers st w = Inr st"
  shows "weightLoop san big answers st (ws1 @ w # ws2) = weightLoop san big answers st (ws1 @ ws2)"
  by (simp add: weightLoop_append assms split: sum.splits)

lemma weight_loop:
  "plainWeights ws \<Longrightarrow>
   weightLoop san big answers (parts, seen) ws =
     Inr (parts @ map (renderPair big) (weightPairs san answers seen ws),
          seen \<union> keysOf san answers ws)"
proof (induction ws arbitrary: parts seen)
  case Nil
  then show ?case by (simp add: keysOf_def List.map_filter_simps)
next
  case (Cons w ws)
  then have pw: "list_all plainTag (tagsOrEmpty (wv_tags w))" and rest: "plainWeights ws"
    by (simp_all add: plainWeights_def)
  show ?case
  proof (cases "dedupKey san answers w")
    case None
    then show ?thesis
      by (simp add: weightStep_key[OF pw] Cons.IH[OF rest] keysOf_def List.map_filter_simps)
  next
    case (Some k)
    then show ?thesis
      by (auto simp: weightStep_key[OF pw] Cons.IH[OF rest] keysOf_def List.map_filter_simps
            renderPair_def)
  qed
qed

lemma promptParts_split:
  "plainWeights ws \<Longrightarrow>
   promptParts san big answers refs ws ces =
     Inr (map answerPart answers @ map refinementPart refs @
          map (renderPair big) (weightPairs san answers {} ws) @ customPromptElements ces)"
  by (simp add: promptParts_def weight_loop)

lemma weightPairs_append:
  "weightPairs san answers seen (ws1 @ ws2) =
     weightPairs san answers seen ws1 @
     weightPairs san answers (seen \<union> keysOf san answers ws1) ws2"
proof (induction ws1 arbitrary: seen)
  case Nil
  then show ?case by (simp add: keysOf_def List.map_filter_simps)
next
  case (Cons w ws1)
  show ?case
  proof (cases "dedupKey san answers w")
    case None
    then show ?thesis by (simp add: Cons.IH keysOf_def List.map_filter_simps)
  next
    case (Some k)
    have "insert k seen \<union> keysOf san answers ws1 = seen \<union> keysOf san answers (w # ws1)"
      using Some by (auto simp: keysOf_def List.map_filter_simps)
    moreover have "k \<in> seen \<Longrightarrow> seen \<union> keysOf san answers ws1 = seen \<union> keysOf san answers (w # ws1)"
      using Some by (auto simp: keysOf_def List.map_filter_simps)
    ultimately show ?thesis using Some by (simp add: Cons.IH)
  qed
qed

lemma keysOf_iff:
  "k \<in> keysOf san answers ws \<longleftrightarrow> (\<exists>w \<in> set ws. dedupKey san answers w = Some k)"
  by (induction ws) (auto simp: keysOf_def List.map_filter_simps split: option.splits)

lemma weightPairs_seen:
  "k \<in> seen \<Longrightarrow> filter (\<lambda>p. fst p = k) (weightPairs san answers seen ws) = []"
proof (induction ws arbitrary: seen)
  case Nil
  then show ?case by simp
next
  case (Cons w ws)
  then show ?case by (cases "dedupKey san answers w") auto
qed

lemma weightPairs_first:
  "k \<notin> seen \<Longrightarrow> find (\<lambda>w. dedupKey san answers w = Some k) ws = Some w \<Longrightarrow>
   filter (\<lambda>p. fst p = k) (weightPairs san answers seen ws) = [(k, wv_value w)]"
proof (induction ws arbitrary: seen)
  case Nil
  then show ?case by simp
next
  case (Cons x ws)
  show ?case
  proof (cases "dedupKey san answers x")
    case None
    then show ?thesis using Cons by simp
  next
    case (Some k')
    show ?thesis
    proof (cases "k' = k")
      case True
      with Some Cons.prems have "x = w" by simp
      then show ?thesis using Some True Cons.prems(1) by (simp add: weightPairs_seen)
    next
      case False
      with Some Cons.prems have f: "find (\<lambda>w. dedupKey san answers w = Some k) ws = Some w"
        by simp
      have "k \<notin> insert k' seen" using False Cons.prems(1) by simp
      then show ?thesis using Some False Cons.IH[OF _ f] Cons.prems(1) by simp
    qed
  qed
qed

section \<open>Weights that share their text\<close>

text \<open>
  For a plain collection of weights: when two weights reach the duplicate check with the
  same text, the loop pushes exactly one part with that text, and the value it renders
  there is the value of the first weight of the collection that has that text.
\<close>

lemma duplicates_once_plain:
  assumes "plainWeights ws" and "i < j" and "j < length ws"
    and "dedupKey san answers (ws ! i) = Some k"
    and "dedupKey san answers (ws ! j) = Some k"
  shows "\<exists>w. find (\<lambda>w. dedupKey san answers w = Some k) ws = Some w \<and>
           filter (\<lambda>p. fst p = k) (weightPairs san answers {} ws) = [(k, wv_value w)] \<and>
           promptParts san big answers refs ws ces =
             Inr (map answerPart answers @ map refinementPart refs @
                  map (\<lambda>p. ''('' @ fst p @ '':'' @ toFixed2 big (snd p) @ '')'')
                    (weightPairs san answers {} ws) @
                  customPromptElements ces)"
proof -
  have "ws ! i \<in> set ws" using assms(2,3) by simp
  then have "find (\<lambda>w. dedupKey san answers w = Some k) ws \<noteq> None"
    using assms(4) by (auto simp: find_None_iff)
  then obtain w where w: "find (\<lambda>w. dedupKey san answers w = Some k) ws = Some w" by blast
  have r: "renderPair big = (\<lambda>p. ''('' @ fst p @ '':'' @ toFixed2 big (snd p) @ '')'')"
    by (rule ext) (simp add: renderPair_def fragment_def)
  show ?thesis
    using w weightPairs_first[OF _ w, of "{}"]
    by (simp add: promptParts_split[OF assms(1)] r)
qed

lemma lower_eye_glow:
  "normalizeTemplate ''glow'' [''eyes''] = Inr (JsString ''eye glow'')"
  "normalizeTemplate ''Eye Glow'' [''eyes''] = Inr (JsString ''eye glow'')"
  "normalizeTemplate ''mist'' [''__proto__''] = Inl TypeError"
  by code_simp+

text \<open>
  Claim C8 does not hold of the code. The normalizer reads the rule table without asking
  whether a property is the table's own, so for a weight tagged \<open>__proto__\<close> it finds the
  prototype object, calls it and raises. Here the first two weights reach the duplicate
  check with the same text, \<open>eye glow\<close>, and the assembler returns no prompt at all, where
  the claim has exactly one part with that text.
\<close>

theorem duplicate_weights_inherited_tag:
  "dedupKey (\<lambda>t tags. textOf t) []
     \<lparr> wv_id = ''glow'', wv_attrId = ''glow'', wv_value = Finite (3/4), wv_template = ''glow'',
       wv_tags = Some [''eyes''], wv_associatedAnswerId = None, wv_answerLabel = None \<rparr>
     = Some ''eye glow'' \<and>
   dedupKey (\<lambda>t tags. textOf t) []
     \<lparr> wv_id = ''shine'', wv_attrId = ''shine'', wv_value = Finite (1/2),
       wv_template = ''Eye Glow'', wv_tags = Some [''eyes''], wv_associatedAnswerId = None,
       wv_answerLabel = None \<rparr>
     = Some ''eye glow'' \<and>
   assemblePrompt (\<lambda>t tags. textOf t) (\<lambda>x. ''1e+21'') [] []
     [\<lparr> wv_id = ''glow'', wv_attrId = ''glow'', wv_value = Finite (3/4), wv_template = ''glow'',
        wv_tags = Some [''eyes''], wv_associatedAnswerId = None, wv_answerLabel = None \<rparr>,
      \<lparr> wv_id = ''shine'', wv_attrId = ''shine'', wv_value = Finite (1/2),
        wv_template = ''Eye Glow'', wv_tags = Some [''eyes''], wv_associatedAnswerId = None,
        wv_answerLabel = None \<rparr>,
      \<lparr> wv_id = ''mist'', wv_attrId = ''mist'', wv_value = Finite 1, wv_template = ''mist'',
        wv_tags = Some [''__proto__''], wv_associatedAnswerId = None,
        wv_answerLabel = None \<rparr>] []
     = Inl TypeError"
  by (simp add: assemblePrompt_def promptParts_def weightStep_def dedupKey_def Let_def
        contextualTemplate_def tagsOrEmpty_def lower_eye_glow)

text \<open>Without the third weight the same two weights give one part, with the value of
  the first.\<close>

lemma duplicates_once_example:
  "assemblePrompt (\<lambda>t tags. textOf t) (\<lambda>x. ''1e+21'') [] []
     [\<lparr> wv_id = ''glow'', wv_attrId = ''glow'', wv_value = Finite (3/4), wv_template = ''glow'',
        wv_tags = Some [''eyes''], wv_associatedAnswerId = None, wv_answerLabel = None \<rparr>,
      \<lparr> wv_id = ''shine'', wv_attrId = ''shine'', wv_value = Finite (1/2),
        wv_template = ''Eye Glow'', wv_tags = Some [''eyes''], wv_associatedAnswerId = None,
        wv_answerLabel = None \<rparr>] []
   = Inr \<lparr> prompt = ''(eye glow:0.75)'',
           negativePrompt =
             ''deformed, distorted, extra limbs, low detail, low quality, bad anatomy'' \<rparr>"
proof -
  have f: "toFixed2 (\<lambda>x. ''1e+21'') (Finite (3/4)) = ''0.75''" by code_simp
  show ?thesis
    by (simp add: assemblePrompt_def promptParts_def weightStep_def Let_def
          contextualTemplate_def tagsOrEmpty_def lower_eye_glow fragment_def f
          customPromptElements_def customNegativeElements_def negativeParts_def)
qed

section \<open>Intensity weights\<close>

lemma intensity_root_key:
  "wv_attrId w = ''intensity'' \<Longrightarrow> isRootAnswer answers w \<Longrightarrow> dedupKey san answers w = None"
  by (simp add: dedupKey_def split: option.splits)

lemma intensity_other_key:
  "wv_attrId w = ''intensity'' \<Longrightarrow> \<not> isRootAnswer answers w \<Longrightarrow> wv_answerLabel w = Some l \<Longrightarrow>
   l \<noteq> [] \<Longrightarrow>
   dedupKey san answers w = Some (san (JsString (toLowerCase l)) (tagsOrEmpty (wv_tags w)))"
  by (simp add: dedupKey_def)

lemma intensity_root_skipped:
  assumes "wv_attrId w = ''intensity''" "isRootAnswer answers w"
  shows "assemblePrompt san big answers refs (ws1 @ w # ws2) ces =
         assemblePrompt san big answers refs (ws1 @ ws2) ces"
proof -
  have "\<And>st. weightStep san big answers st w = Inr st"
  proof -
    fix st :: "string list \<times> string set"
    obtain parts seen where st: "st = (parts, seen)" by (cases st)
    show "weightStep san big answers st w = Inr st"
      unfolding st using intensity_step[OF assms(1)] intensity_root_key[OF assms] by simp
  qed
  then show ?thesis
    by (simp add: assemblePrompt_def promptParts_def weightLoop_skip)
qed

lemma plainWeights_without:
  "plainWeights (ws1 @ w # ws2) \<Longrightarrow> plainWeights (ws1 @ ws2) \<and> plainWeights ws1"
  by (simp add: plainWeights_def)

text \<open>
  Claim C4, as amended. An intensity weight bound to a committed answer of the root node
  contributes nothing: the assembled result is the one for the collection without that
  weight. In a plain collection, any other intensity weight with a label that is not
  empty is dropped (the result is again the one without it) when a weight before it
  already reached the duplicate check with the same sanitized lower-cased label;
  otherwise it is pushed, between the parts of the weights before it and the parts of
  the weights after it, as that text, a colon and the rendered value in parentheses. The
  rendering of a finite value of magnitude below \<open>10^21\<close> has exactly two decimal places.
\<close>

theorem intensity_weights:
  "wv_attrId w = ''intensity'' \<longrightarrow>
     (isRootAnswer answers w \<longrightarrow>
        assemblePrompt san big answers refs (ws1 @ w # ws2) ces =
        assemblePrompt san big answers refs (ws1 @ ws2) ces) \<and>
     (plainWeights (ws1 @ w # ws2) \<and> \<not> isRootAnswer answers w \<and> wv_answerLabel w = Some l \<and>
      l \<noteq> [] \<longrightarrow>
        (san (JsString (toLowerCase l)) (tagsOrEmpty (wv_tags w)) \<in> keysOf san answers ws1 \<longrightarrow>
           assemblePrompt san big answers refs (ws1 @ w # ws2) ces =
           assemblePrompt san big answers refs (ws1 @ ws2) ces) \<and>
        (san (JsString (toLowerCase l)) (tagsOrEmpty (wv_tags w)) \<notin> keysOf san answers ws1 \<longrightarrow>
           promptParts san big answers refs (ws1 @ w # ws2) ces =
             Inr (map answerPart answers @ map refinementPart refs @
                  map (renderPair big) (weightPairs san answers {} ws1) @
                  [''('' @ san (JsString (toLowerCase l)) (tagsOrEmpty (wv_tags w)) @ '':'' @
                   toFixed2 big (wv_value w) @ '')''] @
                  map (renderPair big)
                    (weightPairs san answers
                       (insert (san (JsString (toLowerCase l)) (tagsOrEmpty (wv_tags w)))
                          (keysOf san answers ws1)) ws2) @
                  customPromptElements ces)) \<and>
        (\<forall>x. wv_value w = Finite x \<and> \<bar>x\<bar> < 10 ^ 21 \<longrightarrow> twoDecimals (toFixed2 big (wv_value w))))"
proof (intro impI conjI allI)
  assume i: "wv_attrId w = ''intensity''" and r: "isRootAnswer answers w"
  show "assemblePrompt san big answers refs (ws1 @ w # ws2) ces =
        assemblePrompt san big answers refs (ws1 @ ws2) ces"
    by (rule intensity_root_skipped[OF i r])
next
  let ?k = "san (JsString (toLowerCase l)) (tagsOrEmpty (wv_tags w))"
  let ?K = "keysOf san answers ws1"
  assume i: "wv_attrId w = ''intensity''"
    and h: "plainWeights (ws1 @ w # ws2) \<and> \<not> isRootAnswer answers w \<and> wv_answerLabel w = Some l \<and>
      l \<noteq> []"
    and dup: "?k \<in> ?K"
  have key: "dedupKey san answers w = Some ?k" using intensity_other_key i h by blast
  have "weightPairs san answers {} (ws1 @ w # ws2) = weightPairs san answers {} (ws1 @ ws2)"
    using key dup by (simp add: weightPairs_append)
  then show "assemblePrompt san big answers refs (ws1 @ w # ws2) ces =
        assemblePrompt san big answers refs (ws1 @ ws2) ces"
    using h plainWeights_without[of ws1 w ws2]
    by (simp add: assemblePrompt_def promptParts_split)
next
  let ?k = "san (JsString (toLowerCase l)) (tagsOrEmpty (wv_tags w))"
  let ?K = "keysOf san answers ws1"
  assume i: "wv_attrId w = ''intensity''"
    and h: "plainWeights (ws1 @ w # ws2) \<and> \<not> isRootAnswer answers w \<and> wv_answerLabel w = Some l \<and>
      l \<noteq> []"
    and new: "?k \<notin> ?K"
  have key: "dedupKey san answers w = Some ?k" using intensity_other_key i h by blast
  have "weightPairs san answers {} (ws1 @ w # ws2) =
          weightPairs san answers {} ws1 @
          (?k, wv_value w) # weightPairs san answers (insert ?k ?K) ws2"
    using key new by (simp add: weightPairs_append)
  then show "promptParts san big answers refs (ws1 @ w # ws2) ces =
             Inr (map answerPart answers @ map refinementPart refs @
                  map (renderPair big) (weightPairs san answers {} ws1) @
                  [''('' @ ?k @ '':'' @ toFixed2 big (wv_value w) @ '')''] @
                  map (renderPair big) (weightPairs san answers (insert ?k ?K) ws2) @
                  customPromptElements ces)"
    using h by (simp add: promptParts_split renderPair_def fragment_def)
next
  fix x
  assume "wv_value w = Finite x \<and> \<bar>x\<bar> < 10 ^ 21"
  then show "twoDecimals (toFixed2 big (wv_value w))"
    using toFixed2_twoDecimals[of x big] by simp
qed

lemma lower_Red: "toLowerCase ''Red'' = ''red''"
  by code_simp

lemma fixed_examples:
  "toFixed2 big (Finite 1) = ''1.00''"
  "toFixed2 big (Finite (1/2)) = ''0.50''"
  "toFixed2 big NaN = ''NaN''"
  by code_simp+

lemma fixed_large:
  "toFixed2 big (Finite (10 ^ 21)) = big (10 ^ 21)"
  "toFixed2 big (Finite 1000000000000000000000) = big 1000000000000000000000"
  by (simp_all add: toFixed2_def)

theorem intensity_weights_witness:
  "assemblePrompt (\<lambda>t tags. textOf t) (\<lambda>x. ''1e+21'')
     [\<lparr> sa_id = ''sel-0'', sa_nodeId = ''root'', sa_answerId = ''male'', sa_label = ''Male'',
        sa_questionText = None \<rparr>] []
     [\<lparr> wv_id = ''weight-sel-0-intensity'', wv_attrId = ''intensity'', wv_value = Finite (1/2),
        wv_template = ''intensity'', wv_tags = None,
        wv_associatedAnswerId = Some ''sel-0'', wv_answerLabel = Some ''Male'' \<rparr>,
      \<lparr> wv_id = ''weight-sel-1-intensity'', wv_attrId = ''intensity'', wv_value = Finite 1,
        wv_template = ''intensity'', wv_tags = None,
        wv_associatedAnswerId = Some ''sel-1'', wv_answerLabel = Some ''Red'' \<rparr>,
      \<lparr> wv_id = ''weight-sel-2-intensity'', wv_attrId = ''intensity'', wv_value = Finite (1/2),
        wv_template = ''intensity'', wv_tags = None,
        wv_associatedAnswerId = Some ''sel-2'', wv_answerLabel = Some ''Red'' \<rparr>] []
   = Inr \<lparr> prompt = ''Male, (red:1.00)'',
           negativePrompt =
             ''deformed, distorted, extra limbs, low detail, low quality, bad anatomy'' \<rparr> \<and>
   twoDecimals (toFixed2 (\<lambda>x. ''1e+21'') (Finite 1))"
proof -
  let ?san = "\<lambda>(t::jsValue) (tags::string list). textOf t"
  let ?big = "\<lambda>x::real. ''1e+21''"
  let ?a = "\<lparr> sa_id = ''sel-0'', sa_nodeId = ''root'', sa_answerId = ''male'', sa_label = ''Male'',
        sa_questionText = None \<rparr>"
  let ?w0 = "\<lparr> wv_id = ''weight-sel-0-intensity'', wv_attrId = ''intensity'',
        wv_value = Finite (1/2), wv_template = ''intensity'', wv_tags = None,
        wv_associatedAnswerId = Some ''sel-0'', wv_answerLabel = Some ''Male'' \<rparr>"
  let ?w1 = "\<lparr> wv_id = ''weight-sel-1-intensity'', wv_attrId = ''intensity'', wv_value = Finite 1,
        wv_template = ''intensity'', wv_tags = None,
        wv_associatedAnswerId = Some ''sel-1'', wv_answerLabel = Some ''Red'' \<rparr>"
  let ?w2 = "\<lparr> wv_id = ''weight-sel-2-intensity'', wv_attrId = ''intensity'',
        wv_value = Finite (1/2), wv_template = ''intensity'', wv_tags = None,
        wv_associatedAnswerId = Some ''sel-2'', wv_answerLabel = Some ''Red'' \<rparr>"
  have root: "isRootAnswer [?a] ?w0" by (simp add: isRootAnswer_def)
  have o1: "\<not> isRootAnswer [?a] ?w1" and o2: "\<not> isRootAnswer [?a] ?w2"
    by (simp_all add: isRootAnswer_def)
  have k1: "dedupKey ?san [?a] ?w1 = Some ''red''"
    using o1 by (simp add: dedupKey_def lower_Red)
  have inK: "?san (JsString (toLowerCase ''Red'')) (tagsOrEmpty (wv_tags ?w2)) \<in> keysOf ?san [?a] [?w1]"
    using k1 by (simp add: keysOf_def List.map_filter_simps lower_Red)
  have notK: "?san (JsString (toLowerCase ''Red'')) (tagsOrEmpty (wv_tags ?w1)) \<notin> keysOf ?san [?a] []"
    by (simp add: keysOf_def List.map_filter_simps)
  have pl: "plainWeights ([?w1] @ ?w2 # [])" "plainWeights ([] @ ?w1 # [])"
    by (simp_all add: plainWeights_def tagsOrEmpty_def)
  have s1: "assemblePrompt ?san ?big [?a] [] ([] @ ?w0 # [?w1, ?w2]) [] =
            assemblePrompt ?san ?big [?a] [] ([] @ [?w1, ?w2]) []"
    using intensity_weights[of ?w0 "[?a]" ?san ?big "[]" "[]" "[?w1, ?w2]" "[]"] root by simp
  have s2: "assemblePrompt ?san ?big [?a] [] ([?w1] @ ?w2 # []) [] =
            assemblePrompt ?san ?big [?a] [] ([?w1] @ []) []"
    using intensity_weights[of ?w2 "[?a]" ?san ?big "[]" "[?w1]" "[]" "[]" "''Red''"] o2 inK pl(1)
    by simp
  have s3: "promptParts ?san ?big [?a] [] ([] @ ?w1 # []) [] =
             Inr (map answerPart [?a] @ map refinementPart [] @
                  map (renderPair ?big) (weightPairs ?san [?a] {} []) @
                  [''('' @ ?san (JsString (toLowerCase ''Red'')) (tagsOrEmpty (wv_tags ?w1)) @ '':'' @
                   toFixed2 ?big (wv_value ?w1) @ '')''] @
                  map (renderPair ?big)
                    (weightPairs ?san [?a]
                       (insert (?san (JsString (toLowerCase ''Red'')) (tagsOrEmpty (wv_tags ?w1)))
                          (keysOf ?san [?a] [])) []) @
                  customPromptElements [])"
    using intensity_weights[of ?w1 "[?a]" ?san ?big "[]" "[]" "[]" "[]" "''Red''"] o1 notK pl(2)
    by simp
  have two: "twoDecimals (toFixed2 ?big (wv_value ?w1))"
    using intensity_weights[of ?w1 "[?a]" ?san ?big "[]" "[]" "[]" "[]" "''Red''"] o1 pl(2)
    by simp
  have "promptParts ?san ?big [?a] [] [?w1] [] = Inr [''Male'', ''(red:1.00)'']"
    using s3 by (simp add: answerPart_def lower_Red fixed_examples customPromptElements_def)
  then have "assemblePrompt ?san ?big [?a] [] [?w1] [] =
      Inr \<lparr> prompt = ''Male, (red:1.00)'',
            negativePrompt =
              ''deformed, distorted, extra limbs, low detail, low quality, bad anatomy'' \<rparr>"
    by (simp add: assemblePrompt_def customNegativeElements_def negativeParts_def)
  with s1 s2 two show ?thesis by simp
qed

text \<open>
  Claim C4, as stated, fails: of two intensity weights with the same label, neither bound
  to a root answer, only the first is pushed; a value that is not a number is rendered by
  name, without decimal places; and a value of \<open>10^21\<close> is rendered as the general
  conversion renders it, which for this value is \<open>1e+21\<close>.
\<close>

theorem second_intensity_dropped:
  "\<not> isRootAnswer
      [\<lparr> sa_id = ''sel-1'', sa_nodeId = ''hair-color'', sa_answerId = ''red'', sa_label = ''Red'',
         sa_questionText = None \<rparr>,
       \<lparr> sa_id = ''sel-2'', sa_nodeId = ''dress-color'', sa_answerId = ''red'', sa_label = ''Red'',
         sa_questionText = None \<rparr>]
      \<lparr> wv_id = ''weight-sel-2-intensity'', wv_attrId = ''intensity'', wv_value = Finite (1/2),
        wv_template = ''intensity'', wv_tags = None,
        wv_associatedAnswerId = Some ''sel-2'', wv_answerLabel = Some ''Red'' \<rparr> \<and>
   promptParts (\<lambda>t tags. textOf t) (\<lambda>x. ''1e+21'')
     [\<lparr> sa_id = ''sel-1'', sa_nodeId = ''hair-color'', sa_answerId = ''red'', sa_label = ''Red'',
        sa_questionText = None \<rparr>,
      \<lparr> sa_id = ''sel-2'', sa_nodeId = ''dress-color'', sa_answerId = ''red'', sa_label = ''Red'',
        sa_questionText = None \<rparr>] []
     [\<lparr> wv_id = ''weight-sel-1-intensity'', wv_attrId = ''intensity'', wv_value = Finite 1,
        wv_template = ''intensity'', wv_tags = None,
        wv_associatedAnswerId = Some ''sel-1'', wv_answerLabel = Some ''Red'' \<rparr>,
      \<lparr> wv_id = ''weight-sel-2-intensity'', wv_attrId = ''intensity'', wv_value = Finite (1/2),
        wv_template = ''intensity'', wv_tags = None,
        wv_associatedAnswerId = Some ''sel-2'', wv_answerLabel = Some ''Red'' \<rparr>] []
   = Inr [''Red'', ''Red'', ''(red:1.00)''] \<and>
   promptParts (\<lambda>t tags. textOf t) (\<lambda>x. ''1e+21'') [] []
     [\<lparr> wv_id = ''weight-sel-1-intensity'', wv_attrId = ''intensity'', wv_value = NaN,
        wv_template = ''intensity'', wv_tags = None,
        wv_associatedAnswerId = Some ''sel-1'', wv_answerLabel = Some ''Red'' \<rparr>] []
   = Inr [''(red:NaN)''] \<and>
   \<not> twoDecimals ''NaN'' \<and>
   promptParts (\<lambda>t tags. textOf t) (\<lambda>x. ''1e+21'') [] []
     [\<lparr> wv_id = ''weight-sel-1-intensity'', wv_attrId = ''intensity'', wv_value = Finite (10 ^ 21),
        wv_template = ''intensity'', wv_tags = None,
        wv_associatedAnswerId = Some ''sel-1'', wv_answerLabel = Some ''Red'' \<rparr>] []
   = Inr [''(red:1e+21)''] \<and>
   \<not> twoDecimals ''1e+21''"
proof -
  have "\<not> twoDecimals ''NaN''"
  proof
    assume "twoDecimals ''NaN''"
    then obtain sign ip d1 d2 where "''NaN'' = sign @ ip @ ''.'' @ [d1, d2]"
      unfolding twoDecimals_def by blast
    then have "set ''NaN'' = set (sign @ ip @ ''.'' @ [d1, d2])" by (rule arg_cong)
    then have "CHR ''.'' \<in> set ''NaN''" by simp
    then show False by simp
  qed
  moreover have "\<not> twoDecimals ''1e+21''"
  proof
    assume "twoDecimals ''1e+21''"
    then obtain sign ip d1 d2 where "''1e+21'' = sign @ ip @ ''.'' @ [d1, d2]"
      unfolding twoDecimals_def by blast
    then have "set ''1e+21'' = set (sign @ ip @ ''.'' @ [d1, d2])" by (rule arg_cong)
    then have "CHR ''.'' \<in> set ''1e+21''" by simp
    then show False by simp
  qed
  ultimately show ?thesis
    by (simp add: promptParts_def weightStep_def isRootAnswer_def Let_def answerPart_def
          customPromptElements_def tagsOrEmpty_def fragment_def lower_Red fixed_examples
          fixed_large)
qed


section \<open>Weights bound to a refinement, and the preview\<close>

lemma mapSet_has: "(k, v) \<in> set (mapSet k v m)"
  by (induction m) auto

lemma mapSet_keeps: "(k, w) \<in> set m \<Longrightarrow> k' \<noteq> k \<Longrightarrow> (k, w) \<in> set (mapSet k' v m)"
  by (induction m) auto

text \<open>With a context whose identifier and label are not empty, every committed weight is
  bound to that identifier, and an enabled weight of the node is committed.\<close>

lemma commitWeight_with_context:
  assumes "f \<noteq> []" "lbl \<noteq> []"
  shows "commitWeight s (Some f) (Some lbl) rnd i wa m =
           (if enabledSliders s (wa_id wa) = Some True
            then mapSet (''weight-'' @ f @ ''-'' @ wa_id wa) (boundWeight s f lbl wa) m
            else m)"
  using assms by (simp add: commitWeight_def Let_def boundWeight_def)

lemma commitWeight_bound:
  assumes "f \<noteq> []" "lbl \<noteq> []"
    and "\<exists>w. (k, w) \<in> set m \<and> wv_associatedAnswerId w = Some f"
  shows "\<exists>w. (k, w) \<in> set (commitWeight s (Some f) (Some lbl) rnd i wa m) \<and>
             wv_associatedAnswerId w = Some f"
proof -
  from assms(3) obtain w where w: "(k, w) \<in> set m" "wv_associatedAnswerId w = Some f" by blast
  let ?k' = "''weight-'' @ f @ ''-'' @ wa_id wa"
  have b: "wv_associatedAnswerId (boundWeight s f lbl wa) = Some f"
    by (simp add: boundWeight_def)
  show ?thesis
  proof (cases "enabledSliders s (wa_id wa) = Some True")
    case False
    then show ?thesis using w by (auto simp: commitWeight_with_context[OF assms(1,2)])
  next
    case True
    then have eq: "commitWeight s (Some f) (Some lbl) rnd i wa m =
                     mapSet ?k' (boundWeight s f lbl wa) m"
      by (simp add: commitWeight_with_context[OF assms(1,2)])
    show ?thesis
    proof (cases "?k' = k")
      case True
      have "(k, boundWeight s f lbl wa) \<in> set (mapSet k (boundWeight s f lbl wa) m)"
        by (rule mapSet_has)
      then show ?thesis unfolding eq True using b by blast
    next
      case False
      have "(k, w) \<in> set (mapSet ?k' (boundWeight s f lbl wa) m)"
        by (rule mapSet_keeps[OF w(1) False])
      then show ?thesis unfolding eq using w(2) by blast
    qed
  qed
qed

lemma commitWeight_enabled:
  assumes "f \<noteq> []" "lbl \<noteq> []" "enabledSliders s (wa_id wa) = Some True"
  shows "\<exists>w. (''weight-'' @ f @ ''-'' @ wa_id wa, w)
               \<in> set (commitWeight s (Some f) (Some lbl) rnd i wa m) \<and>
             wv_associatedAnswerId w = Some f"
proof -
  let ?k = "''weight-'' @ f @ ''-'' @ wa_id wa"
  have eq: "commitWeight s (Some f) (Some lbl) rnd i wa m = mapSet ?k (boundWeight s f lbl wa) m"
    using assms(3) by (simp add: commitWeight_with_context[OF assms(1,2)])
  have "(?k, boundWeight s f lbl wa) \<in> set (mapSet ?k (boundWeight s f lbl wa) m)"
    by (rule mapSet_has)
  moreover have "wv_associatedAnswerId (boundWeight s f lbl wa) = Some f"
    by (simp add: boundWeight_def)
  ultimately show ?thesis unfolding eq by blast
qed

lemma commitWeights_bound:
  assumes "f \<noteq> []" "lbl \<noteq> []"
  shows "\<exists>w. (k, w) \<in> set m \<and> wv_associatedAnswerId w = Some f \<Longrightarrow>
         \<exists>w. (k, w) \<in> set (commitWeights s (Some f) (Some lbl) rnd i was m) \<and>
             wv_associatedAnswerId w = Some f"
proof (induction was arbitrary: m i)
  case Nil
  then show ?case by simp
next
  case (Cons wa was)
  show ?case
    using Cons.IH[OF commitWeight_bound[OF assms Cons.prems]] by simp
qed

lemma commitWeights_enabled:
  assumes "f \<noteq> []" "lbl \<noteq> []" "enabledSliders s (wa_id wa) = Some True"
  shows "wa \<in> set was \<Longrightarrow>
         \<exists>w. (''weight-'' @ f @ ''-'' @ wa_id wa, w)
               \<in> set (commitWeights s (Some f) (Some lbl) rnd i was m) \<and>
             wv_associatedAnswerId w = Some f"
proof (induction was arbitrary: m i)
  case Nil
  then show ?case by simp
next
  case (Cons x was)
  show ?case
  proof (cases "x = wa")
    case True
    show ?thesis
      using commitWeights_bound[OF assms(1,2) commitWeight_enabled[OF assms], of s rnd "Suc i" was rnd i m]
        True by simp
  next
    case False
    with Cons.prems have "wa \<in> set was" by simp
    then show ?thesis using Cons.IH by simp
  qed
qed

lemma previewWeights_bound:
  "w \<in> set (previewWeights t) \<Longrightarrow>
   \<not> truthy (wv_associatedAnswerId w) \<or>
   (\<exists>a \<in> set (committedAnswers t). wv_associatedAnswerId w = Some (sa_id a))"
  by (auto simp: previewWeights_def split: option.splits)


lemma previewWeights_filtered:
  "previewWeights (t\<lparr> weightValues := filter (\<lambda>e. P (snd e)) (weightValues t) \<rparr>) =
     filter P (previewWeights t)"
  by (simp add: previewWeights_def filter_map comp_def Let_def conj_commute)

lemma commit_without_selection:
  assumes "tempAnswers s (currentNodeId s) = None" "tempRefinements s (currentNodeId s) = None"
    and "contextualAnswer s None = Some (f, lbl)" and "f \<noteq> []"
    and "currentNode nm s = Some node"
  shows "committedAnswers (commitCurrentSelections nm selA selR rnd s) = committedAnswers s"
    and "committedRefinements (commitCurrentSelections nm selA selR rnd s) = committedRefinements s"
    and "weightValues (commitCurrentSelections nm selA selR rnd s) =
           commitWeights s (Some f) (Some lbl) rnd 0 (allWeights nm (currentNodeId s) node)
             (weightValues s)"
  using assms
  by (simp_all add: commitCurrentSelections_def Let_def commitIntensity_def orElse_def
        clearTemp_def)

text \<open>
  Claim C9. The preview hands to the assembler only the weights that are bound to nothing
  or to the identifier of a committed answer. So when a commit without a selection at the
  current node finds its context, on the walk back through the history, in a committed
  refinement (whose identifier is not the identifier of a committed answer), each enabled
  weight of the node is stored bound to that refinement, the refinement stays committed,
  no weight bound to it reaches the assembler, and the preview is the one that the state
  without those weights has.
\<close>

theorem preview_ignores_refinement_weights:
  "(\<forall>w \<in> set (previewWeights t).
      \<not> truthy (wv_associatedAnswerId w) \<or>
      (\<exists>a \<in> set (committedAnswers t). wv_associatedAnswerId w = Some (sa_id a))) \<and>
   getPreviewPrompt san big t =
     assemblePrompt san big (committedAnswers t) (committedRefinements t) (previewWeights t)
       (customElements t) \<and>
   (tempAnswers s (currentNodeId s) = None \<and> tempRefinements s (currentNodeId s) = None \<and>
    contextualAnswer s None = Some (sr_id r, sr_label r) \<and> r \<in> set (committedRefinements s) \<and>
    sr_id r \<noteq> [] \<and> sr_label r \<noteq> [] \<and> sr_id r \<notin> sa_id ` set (committedAnswers s) \<and>
    currentNode nm s = Some node \<and> wa \<in> set (allWeights nm (currentNodeId s) node) \<and>
    enabledSliders s (wa_id wa) = Some True
    \<longrightarrow> r \<in> set (committedRefinements (commitCurrentSelections nm selA selR rnd s)) \<and>
        (\<exists>w. (''weight-'' @ sr_id r @ ''-'' @ wa_id wa, w)
                \<in> set (weightValues (commitCurrentSelections nm selA selR rnd s)) \<and>
              wv_associatedAnswerId w = Some (sr_id r)) \<and>
        (\<forall>w \<in> set (previewWeights (commitCurrentSelections nm selA selR rnd s)).
           wv_associatedAnswerId w \<noteq> Some (sr_id r)) \<and>
        getPreviewPrompt san big (commitCurrentSelections nm selA selR rnd s) =
          getPreviewPrompt san big
            ((commitCurrentSelections nm selA selR rnd s)
               \<lparr> weightValues :=
                   filter (\<lambda>e. wv_associatedAnswerId (snd e) \<noteq> Some (sr_id r))
                     (weightValues (commitCurrentSelections nm selA selR rnd s)) \<rparr>))"
proof (intro conjI impI)
  show "\<forall>w \<in> set (previewWeights t).
      \<not> truthy (wv_associatedAnswerId w) \<or>
      (\<exists>a \<in> set (committedAnswers t). wv_associatedAnswerId w = Some (sa_id a))"
    using previewWeights_bound by blast
  show "getPreviewPrompt san big t =
     assemblePrompt san big (committedAnswers t) (committedRefinements t) (previewWeights t)
       (customElements t)"
    by (simp add: getPreviewPrompt_def)
next
  assume h: "tempAnswers s (currentNodeId s) = None \<and> tempRefinements s (currentNodeId s) = None \<and>
    contextualAnswer s None = Some (sr_id r, sr_label r) \<and> r \<in> set (committedRefinements s) \<and>
    sr_id r \<noteq> [] \<and> sr_label r \<noteq> [] \<and> sr_id r \<notin> sa_id ` set (committedAnswers s) \<and>
    currentNode nm s = Some node \<and> wa \<in> set (allWeights nm (currentNodeId s) node) \<and>
    enabledSliders s (wa_id wa) = Some True"
  let ?s' = "commitCurrentSelections nm selA selR rnd s"
  have ca: "committedAnswers ?s' = committedAnswers s"
    and cr: "committedRefinements ?s' = committedRefinements s"
    and wv: "weightValues ?s' =
           commitWeights s (Some (sr_id r)) (Some (sr_label r)) rnd 0
             (allWeights nm (currentNodeId s) node) (weightValues s)"
    using commit_without_selection[of s "sr_id r" "sr_label r" nm node selA selR rnd] h
    by simp_all
  show c1: "r \<in> set (committedRefinements ?s')" using h cr by simp
  show c2: "\<exists>w. (''weight-'' @ sr_id r @ ''-'' @ wa_id wa, w) \<in> set (weightValues ?s') \<and>
              wv_associatedAnswerId w = Some (sr_id r)"
    unfolding wv using commitWeights_enabled[of "sr_id r" "sr_label r" s wa] h by blast
  show c3: "\<forall>w \<in> set (previewWeights ?s'). wv_associatedAnswerId w \<noteq> Some (sr_id r)"
  proof
    fix w assume "w \<in> set (previewWeights ?s')"
    moreover have "\<forall>a \<in> set (committedAnswers ?s'). sa_id a \<noteq> sr_id r"
      using h ca by (auto simp: image_iff)
    moreover have "truthy (Some (sr_id r))" using h by simp
    ultimately show "wv_associatedAnswerId w \<noteq> Some (sr_id r)"
      using previewWeights_bound[of w ?s'] by force
  qed
  have "filter (\<lambda>w. wv_associatedAnswerId w \<noteq> Some (sr_id r)) (previewWeights ?s')
          = previewWeights ?s'"
    using c3 by simp
  then show "getPreviewPrompt san big ?s' =
          getPreviewPrompt san big
            (?s'\<lparr> weightValues :=
                   filter (\<lambda>e. wv_associatedAnswerId (snd e) \<noteq> Some (sr_id r))
                     (weightValues ?s') \<rparr>)"
    using previewWeights_filtered[of "\<lambda>w. wv_associatedAnswerId w \<noteq> Some (sr_id r)" ?s']
    by (simp add: getPreviewPrompt_def)
qed

lemma refinement_session:
  "currentNodeId (session exampleGraph
     [JumpTo ''refine-eyes'', SelectTempRefinement ''green'',
      CommitCurrentSelections ''a1'' ''r1'' (\<lambda>i. ''w''), JumpTo ''eye-detail'',
      SetSliderEnabled ''glow'' True]) = ''eye-detail''"
  "tempAnswers (session exampleGraph
     [JumpTo ''refine-eyes'', SelectTempRefinement ''green'',
      CommitCurrentSelections ''a1'' ''r1'' (\<lambda>i. ''w''), JumpTo ''eye-detail'',
      SetSliderEnabled ''glow'' True]) ''eye-detail'' = None"
  "tempRefinements (session exampleGraph
     [JumpTo ''refine-eyes'', SelectTempRefinement ''green'',
      CommitCurrentSelections ''a1'' ''r1'' (\<lambda>i. ''w''), JumpTo ''eye-detail'',
      SetSliderEnabled ''glow'' True]) ''eye-detail'' = None"
  "committedAnswers (session exampleGraph
     [JumpTo ''refine-eyes'', SelectTempRefinement ''green'',
      CommitCurrentSelections ''a1'' ''r1'' (\<lambda>i. ''w''), JumpTo ''eye-detail'',
      SetSliderEnabled ''glow'' True]) = []"
  "committedRefinements (session exampleGraph
     [JumpTo ''refine-eyes'', SelectTempRefinement ''green'',
      CommitCurrentSelections ''a1'' ''r1'' (\<lambda>i. ''w''), JumpTo ''eye-detail'',
      SetSliderEnabled ''glow'' True])
     = [\<lparr> sr_id = ''sel-r1'', sr_refinementId = ''refine-eyes'', sr_answerId = ''green'',
          sr_label = ''Green'', sr_questionText = Some ''Which eye color?'' \<rparr>]"
  "contextualAnswer (session exampleGraph
     [JumpTo ''refine-eyes'', SelectTempRefinement ''green'',
      CommitCurrentSelections ''a1'' ''r1'' (\<lambda>i. ''w''), JumpTo ''eye-detail'',
      SetSliderEnabled ''glow'' True]) None = Some (''sel-r1'', ''Green'')"
  "enabledSliders (session exampleGraph
     [JumpTo ''refine-eyes'', SelectTempRefinement ''green'',
      CommitCurrentSelections ''a1'' ''r1'' (\<lambda>i. ''w''), JumpTo ''eye-detail'',
      SetSliderEnabled ''glow'' True]) ''glow'' = Some True"
  by code_simp+

theorem preview_ignores_refinement_weights_witness:
  "(\<exists>w. (''weight-sel-r1-glow'', w)
          \<in> set (weightValues (commitCurrentSelections exampleGraph ''a2'' ''r2'' (\<lambda>i. ''w'')
                (session exampleGraph
                   [JumpTo ''refine-eyes'', SelectTempRefinement ''green'',
                    CommitCurrentSelections ''a1'' ''r1'' (\<lambda>i. ''w''), JumpTo ''eye-detail'',
                    SetSliderEnabled ''glow'' True]))) \<and>
        wv_associatedAnswerId w = Some ''sel-r1'') \<and>
   list_all (\<lambda>w. wv_associatedAnswerId w \<noteq> Some ''sel-r1'')
     (previewWeights (commitCurrentSelections exampleGraph ''a2'' ''r2'' (\<lambda>i. ''w'')
                (session exampleGraph
                   [JumpTo ''refine-eyes'', SelectTempRefinement ''green'',
                    CommitCurrentSelections ''a1'' ''r1'' (\<lambda>i. ''w''), JumpTo ''eye-detail'',
                    SetSliderEnabled ''glow'' True])))"
proof -
  let ?s = "session exampleGraph
     [JumpTo ''refine-eyes'', SelectTempRefinement ''green'',
      CommitCurrentSelections ''a1'' ''r1'' (\<lambda>i. ''w''), JumpTo ''eye-detail'',
      SetSliderEnabled ''glow'' True]"
  let ?r = "\<lparr> sr_id = ''sel-r1'', sr_refinementId = ''refine-eyes'', sr_answerId = ''green'',
          sr_label = ''Green'', sr_questionText = Some ''Which eye color?'' \<rparr>"
  let ?wa = "\<lparr> wa_id = ''glow'', wa_label = ''Glow'', wa_template = ''glow'',
                wa_min = Finite 0, wa_max = Finite 2, wa_step = Finite (1/10),
                wa_default = Finite 1,
                wa_tags = Some [''eyes''] \<rparr>"
  let ?node = "\<lparr> in_id = ''eye-detail'', in_question = ''How detailed?'',
          in_answers = None, in_weights = Some [?wa], in_refinements = None \<rparr>"
  have n: "currentNode exampleGraph ?s = Some ?node"
    unfolding currentNode_def refinement_session(1) by (simp add: exampleGraph_def)
  have a: "?wa \<in> set (allWeights exampleGraph (currentNodeId ?s) ?node)"
    unfolding allWeights_def weightsOrEmpty_def Let_def
    by (simp only: InterviewNode.simps option.case set_append list.set) blast
  have hyp: "tempAnswers ?s (currentNodeId ?s) = None \<and> tempRefinements ?s (currentNodeId ?s) = None \<and>
    contextualAnswer ?s None = Some (sr_id ?r, sr_label ?r) \<and> ?r \<in> set (committedRefinements ?s) \<and>
    sr_id ?r \<noteq> [] \<and> sr_label ?r \<noteq> [] \<and> sr_id ?r \<notin> sa_id ` set (committedAnswers ?s) \<and>
    currentNode exampleGraph ?s = Some ?node \<and>
    ?wa \<in> set (allWeights exampleGraph (currentNodeId ?s) ?node) \<and>
    enabledSliders ?s (wa_id ?wa) = Some True"
    using n a by (simp add: refinement_session)
  show ?thesis
    using preview_ignores_refinement_weights[of ?s "\<lambda>t tags. textOf t" "\<lambda>x. ''1e+21''" ?s ?r
        exampleGraph ?node ?wa "''a2''" "''r2''" "\<lambda>i. ''w''"] hyp
    by (simp add: list_all_iff)
qed
end
